theory Spec2Isabelle
  imports Complex_Main "HOL-Library.Word"
begin

section \<open>The host component (src/components/viewer/VolumeViewer.tsx)\<close>

text \<open>
  The React component \<open>VolumeViewer\<close> drives an engine object through the interface
  \<open>VolumeViewerWasm\<close> and a canvas through the DOM. Each handler is embedded as a function from the component state, the DOM objects it
  reads and the engine instance to the new state, the new DOM objects and the list of
  effects it performs, in program order. JavaScript numbers are idealised as reals
  (rounding of the products \<open>deltaX * 0.005\<close> and \<open>deltaX * 0.1\<close> is not modelled);
  a handler is run to completion (the awaits of \<open>handleFileUpload\<close> are not
  interleaved with other handlers).
\<close>

type_synonym number = real
type_synonym byte = "8 word"

text \<open>A thrown JavaScript value: an \<open>Error\<close> with its message, or anything else.\<close>

datatype thrown = Error string | NonError

text \<open>\<open>interface ViewerState\<close>, lines 4-11.\<close>

record ViewerState =
  isLoading :: bool
  error :: "string option"
  isDragging :: bool
  lastMousePos :: "number \<times> number"
  mouseButton :: "int option"
  dimensions :: "number list option"

text \<open>
  \<open>interface VolumeViewerWasm\<close>, lines 13-20, as a signature table: method name,
  parameter types, return type.
\<close>

datatype ts_type = TNumber | TVoid | TUint8Array | TArray ts_type
  | TTuple "ts_type list" | TPromise ts_type

definition VolumeViewerWasm :: "(string \<times> ts_type list \<times> ts_type) list" where
  "VolumeViewerWasm =
    [(''load_volume'', [TUint8Array], TPromise (TArray TNumber)),
     (''render'', [], TUint8Array),
     (''orbit'', [TNumber, TNumber], TVoid),
     (''zoom'', [TNumber], TVoid),
     (''pan'', [TTuple [TNumber, TNumber]], TVoid),
     (''resize'', [TNumber, TNumber], TVoid)]"

text \<open>Argument values of a call on the engine, and their typing.\<close>

datatype jsval = Num number | Arr "jsval list" | U8 "byte list"

fun has_type :: "jsval \<Rightarrow> ts_type \<Rightarrow> bool" where
  "has_type (Num _) TNumber = True"
| "has_type (U8 _) TUint8Array = True"
| "has_type (Arr vs) (TArray t) = list_all (\<lambda>v. has_type v t) vs"
| "has_type (Arr vs) (TTuple ts) = list_all2 has_type vs ts"
| "has_type _ _ = False"

text \<open>
  The DOM's \<open>ImageData\<close> and its constructor \<open>new ImageData(data, sw, sh)\<close> as the
  HTML standard defines it: the data must be a non-empty multiple of four bytes that
  fills exactly \<open>sw\<close> by \<open>sh\<close> pixels. The messages of the two DOM exceptions differ
  between browsers; their names stand for them.
\<close>

record ImageData =
  img_data :: "byte list"
  img_width :: nat
  img_height :: nat

definition new_ImageData :: "byte list \<Rightarrow> nat \<Rightarrow> nat \<Rightarrow> thrown + ImageData" where
  "new_ImageData bytes sw sh =
    (if sw = 0 \<or> sh = 0 then Inl (Error ''IndexSizeError'')
     else if length bytes = 0 \<or> length bytes mod 4 \<noteq> 0 then Inl (Error ''InvalidStateError'')
     else if (length bytes div 4) mod sw \<noteq> 0 then Inl (Error ''IndexSizeError'')
     else if (length bytes div 4) div sw \<noteq> sh then Inl (Error ''IndexSizeError'')
     else Inr \<lparr>img_data = bytes, img_width = sw, img_height = sh\<rparr>)"

text \<open>
  What a handler does to the outside, in program order: a method call on the engine
  (name and arguments), and the DOM calls of the component.
\<close>

datatype effect =
    Call string "jsval list"
  | GetContext
  | PutImageData ImageData
  | CancelAnimationFrame nat
  | ConsoleError string
  | PreventDefault
  | ClearFileInput

text \<open>
  The engine instance \<open>viewer\<close>. Its implementation is not part of the component, so
  an instance is given by how it answers: for each method, whether the call returns
  (and what) or throws. The theorems below hold for every such answer.
\<close>

record Engine_answers =
  load_volume_r :: "byte list \<Rightarrow> thrown + number list option"
  render_r :: "thrown + byte list"
  orbit_r :: "thrown option"
  zoom_r :: "thrown option"
  pan_r :: "thrown option"
  resize_r :: "thrown option"

text \<open>
  The canvas element behind \<open>canvasRef\<close>: its bitmap size, whether
  \<open>getContext("2d")\<close> yields a context, and the bounding rectangle (width, height) of
  its parent element, if it has one. \<open>animationFrameRef\<close> is the second ref.
\<close>

record Canvas =
  canvas_width :: nat
  canvas_height :: nat
  context2d :: bool
  container :: "(number \<times> number) option"

record Dom =
  canvasRef :: "Canvas option"
  animationFrameRef :: "nat option"

record MouseEvent =
  clientX :: number
  clientY :: number
  button :: int

record WheelEvent =
  deltaY :: number

text \<open>
  The selected file: its name, its size in bytes and what \<open>file.arrayBuffer()\<close>
  resolves to (or rejects with).
\<close>

record File =
  file_name :: string
  file_size :: nat
  file_content :: "thrown + byte list"

text \<open>The message a catch block stores: \<open>error instanceof Error ? error.message : dflt\<close>.\<close>

definition message_of :: "thrown \<Rightarrow> string \<Rightarrow> string" where
  "message_of t dflt = (case t of Error m \<Rightarrow> m | NonError \<Rightarrow> dflt)"

text \<open>Assigning a number to the \<open>unsigned long\<close> attributes \<open>canvas.width\<close> and
  \<open>canvas.height\<close>: truncation towards zero, modulo \<open>2^32\<close>.\<close>

definition ToUint32 :: "number \<Rightarrow> nat" where
  "ToUint32 x = nat ((if 0 \<le> x then \<lfloor>x\<rfloor> else \<lceil>x\<rceil>) mod 2 ^ 32)"

subsection \<open>renderFrame, lines 35-59\<close>

text \<open>The body of the try block: the outcome and the effects performed up to it.\<close>

definition renderFrame_try :: "Engine_answers \<Rightarrow> Canvas \<Rightarrow> (thrown + unit) \<times> effect list" where
  "renderFrame_try viewer canvas =
    (if \<not> context2d canvas then (Inl (Error ''Failed to get 2D context''), [GetContext])
     else case render_r viewer of
       Inl t \<Rightarrow> (Inl t, [GetContext, Call ''render'' []])
     | Inr frameBuffer \<Rightarrow>
        (case new_ImageData frameBuffer (canvas_width canvas) (canvas_height canvas) of
           Inl t \<Rightarrow> (Inl t, [GetContext, Call ''render'' []])
         | Inr imageData \<Rightarrow>
             (Inr (), [GetContext, Call ''render'' [], PutImageData imageData])))"

definition renderFrame ::
  "Engine_answers option \<Rightarrow> Dom \<Rightarrow> ViewerState \<Rightarrow> ViewerState \<times> effect list" where
  "renderFrame viewer doc st =
    (case viewer of
       None \<Rightarrow> (st, [])
     | Some v \<Rightarrow>
        (case canvasRef doc of
           None \<Rightarrow> (st, [])
         | Some canvas \<Rightarrow>
            (case renderFrame_try v canvas of
               (Inr _, effs) \<Rightarrow> (st, effs)
             | (Inl t, effs) \<Rightarrow>
                 (st\<lparr>error := Some (message_of t ''Render failed'')\<rparr>,
                  effs @ [ConsoleError ''Render error:'']))))"

subsection \<open>handleResize, lines 101-121\<close>

definition handleResize ::
  "Engine_answers option \<Rightarrow> Dom \<Rightarrow> ViewerState \<Rightarrow> ViewerState \<times> Dom \<times> effect list" where
  "handleResize viewer doc st =
    (case viewer of
       None \<Rightarrow> (st, doc, [])
     | Some v \<Rightarrow>
        (case canvasRef doc of
           None \<Rightarrow> (st, doc, [])
         | Some canvas \<Rightarrow>
            (case container canvas of
               None \<Rightarrow> (st, doc, [])
             | Some (w, h) \<Rightarrow>
                (let doc' = doc\<lparr>canvasRef :=
                       Some (canvas\<lparr>canvas_width := ToUint32 w, canvas_height := ToUint32 h\<rparr>)\<rparr>;
                     resized = Call ''resize'' [Num w, Num h]
                 in case resize_r v of
                      Some t \<Rightarrow>
                        (st\<lparr>error := Some (message_of t ''Resize failed'')\<rparr>, doc',
                         [resized, ConsoleError ''Resize error:''])
                    | None \<Rightarrow>
                        (let (st', effs) = renderFrame viewer doc' st
                         in (st', doc', resized # effs))))))"

subsection \<open>Mouse handlers, lines 131-181\<close>

definition handleMouseDown :: "ViewerState \<Rightarrow> MouseEvent \<Rightarrow> ViewerState \<times> effect list" where
  "handleMouseDown st e =
    (st\<lparr>isDragging := True, lastMousePos := (clientX e, clientY e),
        mouseButton := Some (button e), error := None\<rparr>,
     [PreventDefault])"

definition handleMouseMove ::
  "Engine_answers option \<Rightarrow> Dom \<Rightarrow> ViewerState \<Rightarrow> MouseEvent \<Rightarrow> ViewerState \<times> effect list" where
  "handleMouseMove viewer doc st e =
    (case viewer of
       None \<Rightarrow> (st, [])
     | Some v \<Rightarrow>
        if \<not> isDragging st then (st, [])
        else
          (let deltaX = clientX e - fst (lastMousePos st);
               deltaY = clientY e - snd (lastMousePos st);
               (moved, effs) =
                 (if mouseButton st = Some 0
                  then (orbit_r v, [Call ''orbit'' [Num (deltaX * 0.005), Num (deltaY * 0.005)]])
                  else if mouseButton st = Some 2
                  then (pan_r v, [Call ''pan'' [Arr [Num (deltaX * 0.1), Num (deltaY * 0.1)]]])
                  else (None, []))
           in case moved of
                Some t \<Rightarrow>
                  (st\<lparr>error := Some (message_of t ''Mouse interaction failed''),
                      isDragging := False\<rparr>,
                   effs @ [ConsoleError ''Mouse move error:''])
              | None \<Rightarrow>
                  (let (st', effs') =
                         renderFrame viewer doc
                           (st\<lparr>lastMousePos := (clientX e, clientY e), error := None\<rparr>)
                   in (st', effs @ effs'))))"

definition handleMouseUp :: "ViewerState \<Rightarrow> ViewerState" where
  "handleMouseUp st = st\<lparr>isDragging := False, mouseButton := None\<rparr>"

subsection \<open>handleWheel, lines 183-198\<close>

definition handleWheel ::
  "Engine_answers option \<Rightarrow> Dom \<Rightarrow> ViewerState \<Rightarrow> WheelEvent \<Rightarrow> ViewerState \<times> effect list" where
  "handleWheel viewer doc st e =
    (case viewer of
       None \<Rightarrow> (st, [PreventDefault])
     | Some v \<Rightarrow>
        (let delta = (if deltaY e > 0 then 0.1 else - 0.1);
             zoomed = Call ''zoom'' [Num delta]
         in case zoom_r v of
              Some t \<Rightarrow>
                (st\<lparr>error := Some (message_of t ''Zoom failed'')\<rparr>,
                 [PreventDefault, zoomed, ConsoleError ''Wheel error:''])
            | None \<Rightarrow>
                (let (st', effs) = renderFrame viewer doc st
                 in (st', PreventDefault # zoomed # effs))))"

definition handleContextMenu :: "effect list" where
  "handleContextMenu = [PreventDefault]"

subsection \<open>handleFileUpload, lines 204-279\<close>

text \<open>
  \<open>String.prototype.toLowerCase\<close> and \<open>endsWith\<close>, on the characters of a file
  name. Only the letters A to Z change; no other character lower-cases to a letter of
  \<open>.tif\<close> or \<open>.tiff\<close>, so nothing else matters to the test below.
\<close>

definition lower_char :: "char \<Rightarrow> char" where
  "lower_char c =
    (case map_of (zip ''ABCDEFGHIJKLMNOPQRSTUVWXYZ'' ''abcdefghijklmnopqrstuvwxyz'') c of
       None \<Rightarrow> c
     | Some l \<Rightarrow> l)"

definition toLowerCase :: "string \<Rightarrow> string" where
  "toLowerCase s = map lower_char s"

definition endsWith :: "string \<Rightarrow> string \<Rightarrow> bool" where
  "endsWith s t = (length t \<le> length s \<and> drop (length s - length t) s = t)"

definition MAX_FILE_SIZE :: nat where
  "MAX_FILE_SIZE = 256 * 1024 * 1024"

text \<open>Lines 254-264: the canvas is sized to its container and the engine is told.\<close>

definition size_canvas :: "Engine_answers \<Rightarrow> Dom \<Rightarrow> thrown option \<times> Dom \<times> effect list" where
  "size_canvas v doc =
    (case canvasRef doc of
       None \<Rightarrow> (None, doc, [])
     | Some canvas \<Rightarrow>
        (case container canvas of
           None \<Rightarrow> (None, doc, [])
         | Some (w, h) \<Rightarrow>
            (resize_r v,
             doc\<lparr>canvasRef :=
                 Some (canvas\<lparr>canvas_width := ToUint32 w, canvas_height := ToUint32 h\<rparr>)\<rparr>,
             [Call ''resize'' [Num w, Num h]])))"

text \<open>
  The body of the try block, lines 210-266: the outcome (\<open>Inl\<close> what was thrown), the
  state and DOM reached and the effects performed up to there.
\<close>

definition handleFileUpload_try ::
  "Engine_answers \<Rightarrow> Dom \<Rightarrow> ViewerState \<Rightarrow> File
    \<Rightarrow> (thrown + unit) \<times> ViewerState \<times> Dom \<times> effect list" where
  "handleFileUpload_try v doc st file =
    (let st1 = st\<lparr>isLoading := True, error := None, dimensions := None\<rparr> in
     if \<not> endsWith (toLowerCase (file_name file)) ''.tif'' \<and>
        \<not> endsWith (toLowerCase (file_name file)) ''.tiff''
     then (Inl (Error ''Please select a TIFF file''), st1, doc, [])
     else if file_size file > MAX_FILE_SIZE
     then (Inl (Error ''File size too large (max 256MB)''), st1, doc, [])
     else
      (let cancelled =
             (case animationFrameRef doc of
                None \<Rightarrow> []
              | Some k \<Rightarrow> if k \<noteq> 0 then [CancelAnimationFrame k] else [])
       in case file_content file of
            Inl t \<Rightarrow> (Inl t, st1, doc, cancelled)
          | Inr uint8Array \<Rightarrow>
             (let loaded = cancelled @ [Call ''load_volume'' [U8 uint8Array]]
              in case load_volume_r v uint8Array of
                   Inl t \<Rightarrow> (Inl t, st1, doc, loaded)
                 | Inr None \<Rightarrow>
                     (Inl (Error ''Invalid volume dimensions received''), st1, doc, loaded)
                 | Inr (Some dims) \<Rightarrow>
                     if length dims \<noteq> 3
                     then (Inl (Error ''Invalid volume dimensions received''), st1, doc, loaded)
                     else
                      (let st2 = st1\<lparr>dimensions := Some dims, isLoading := False,
                                       error := None\<rparr>
                       in case size_canvas v doc of
                            (Some t, doc', effs) \<Rightarrow> (Inl t, st2, doc', loaded @ effs)
                          | (None, doc', effs) \<Rightarrow>
                             (let (st3, effs') = renderFrame (Some v) doc' st2
                              in (Inr (), st3, doc', loaded @ effs @ effs'))))))"

text \<open>
  The handler: the guard of line 208, the try block, the catch block (lines 267-274)
  and the finally block (line 277).
\<close>

definition handleFileUpload ::
  "Engine_answers option \<Rightarrow> Dom \<Rightarrow> ViewerState \<Rightarrow> File option
    \<Rightarrow> ViewerState \<times> Dom \<times> effect list" where
  "handleFileUpload viewer doc st selected =
    (case selected of
       None \<Rightarrow> (st, doc, [])
     | Some file \<Rightarrow>
        (case viewer of
           None \<Rightarrow> (st, doc, [])
         | Some v \<Rightarrow>
            (case handleFileUpload_try v doc st file of
               (Inr _, st', doc', effs) \<Rightarrow> (st', doc', effs @ [ClearFileInput])
             | (Inl t, st', doc', effs) \<Rightarrow>
                 (st'\<lparr>isLoading := False,
                      error := Some (message_of t ''Failed to load image''),
                      dimensions := None\<rparr>,
                  doc', effs @ [ConsoleError ''Error loading file:'', ClearFileInput]))))"

text \<open>The calls of one engine method among the effects of a handler.\<close>

definition calls_of :: "string \<Rightarrow> effect list \<Rightarrow> jsval list list" where
  "calls_of m effs = concat (map (\<lambda>x. case x of Call n args \<Rightarrow> (if n = m then [args] else []) | _ \<Rightarrow> []) effs)"

text \<open>
  Concrete values for the instances below: the initial component state of lines 26-33,
  a two by two canvas, and an engine instance that answers every call normally, except
  that it rejects an empty input.
\<close>

definition initial_state :: ViewerState where
  "initial_state =
    \<lparr>isLoading = True, error = None, isDragging = False, lastMousePos = (0, 0),
     mouseButton = None, dimensions = None\<rparr>"

definition small_canvas :: Canvas where
  "small_canvas =
    \<lparr>canvas_width = 2, canvas_height = 2, context2d = True, container = Some (2, 2)\<rparr>"

definition small_dom :: Dom where
  "small_dom = \<lparr>canvasRef = Some small_canvas, animationFrameRef = None\<rparr>"

definition steady_engine :: Engine_answers where
  "steady_engine =
    \<lparr>load_volume_r = (\<lambda>bytes. if bytes = [] then Inl NonError else Inr (Some [4, 4, 2])),
     render_r = Inr (replicate 16 0),
     orbit_r = None, zoom_r = None, pan_r = None, resize_r = None\<rparr>"

section \<open>The engine, modelled from the specification\<close>

text \<open>
  The engine behind \<open>VolumeViewerWasm\<close> (decoder, volume store, camera, renderer and
  facade) is not among the files of the repository at hand: only the component that
  calls it and its package manifest are. The definitions of this section are therefore
  written from sections 3, 4 and 7 of the specification. What the specification leaves
  open (the container parser, the ray caster, the clamp bounds, which of the two zoom
  formulas is used) is a parameter, collected in \<open>Settings\<close>. Where the component
  declares how an operation is called (the parameter list of \<open>pan\<close>), the declaration
  is followed. Intensities, angles and distances are reals.
\<close>

subsection \<open>Volume and slice decoder (specification 3, 4.1, 4.2)\<close>

text \<open>Modelled from the spec: the Volume of section 3, a contiguous grid of normalised
  intensities with its dimensions.\<close>

record Volume =
  vol_width :: nat
  vol_height :: nat
  vol_depth :: nat
  vol_data :: "real list"

text \<open>Modelled from the spec: the Volume invariant of section 3 (buffer length is
  width times height times depth, every intensity lies in the unit interval); a volume
  has at least one slice.\<close>

definition volume_ok :: "Volume \<Rightarrow> bool" where
  "volume_ok v \<longleftrightarrow>
     length (vol_data v) = vol_width v * vol_height v * vol_depth v \<and>
     0 < vol_depth v \<and>
     list_all (\<lambda>s. 0 \<le> s \<and> s \<le> 1) (vol_data v)"

text \<open>Modelled from the spec: the intensity stored for voxel \<open>(x, y, z)\<close>.\<close>

definition voxel :: "Volume \<Rightarrow> nat \<Rightarrow> nat \<Rightarrow> nat \<Rightarrow> real" where
  "voxel v x y z = vol_data v ! (z * (vol_width v * vol_height v) + y * vol_width v + x)"

text \<open>Modelled from the spec: the error kinds of section 7 that a load can fail with.\<close>

datatype DecodeError = UnsupportedFormat | InconsistentDimensions | EmptyVolume | CorruptInput

text \<open>Modelled from the spec: the orientation metadata of a page, naming the
  correction section 4.1 applies for it (row flip, column flip or transpose).\<close>

datatype Orientation = FlipRows | FlipColumns | Transpose

text \<open>Modelled from the spec: the samples of a page by column and row, 8-bit or 16-bit
  unsigned single-channel; \<open>Other\<close> is any other bit depth or pixel layout.\<close>

datatype Samples = Gray8 "nat \<Rightarrow> nat \<Rightarrow> 8 word" | Gray16 "nat \<Rightarrow> nat \<Rightarrow> 16 word" | Other

text \<open>Modelled from the spec: one parsed page of the input, as section 4.1 lists what is
  parsed: width, height, orientation metadata if present, and the samples.\<close>

record Page =
  page_width :: nat
  page_height :: nat
  page_orientation :: "Orientation option"
  page_samples :: Samples

text \<open>Modelled from the spec: the formats section 4.1 supports (the others fail with
  \<open>UnsupportedFormat\<close>).\<close>

fun supported :: "Samples \<Rightarrow> bool" where
  "supported (Gray8 _) = True"
| "supported (Gray16 _) = True"
| "supported Other = False"

text \<open>Modelled from the spec: bit-depth normalisation of section 4.1, division by the
  largest value of the detected depth (255 or 65535).\<close>

fun sample_at :: "Samples \<Rightarrow> nat \<Rightarrow> nat \<Rightarrow> real" where
  "sample_at (Gray8 f) x y = real (unat (f x y)) / 255"
| "sample_at (Gray16 f) x y = real (unat (f x y)) / 65535"
| "sample_at Other x y = 0"

text \<open>Modelled from the spec: reading the samples of a page through a change of
  coordinates, the common form of the three corrections.\<close>

fun reindex :: "(nat \<Rightarrow> nat \<Rightarrow> nat \<times> nat) \<Rightarrow> Samples \<Rightarrow> Samples" where
  "reindex g (Gray8 f) = Gray8 (\<lambda>x y. f (fst (g x y)) (snd (g x y)))"
| "reindex g (Gray16 f) = Gray16 (\<lambda>x y. f (fst (g x y)) (snd (g x y)))"
| "reindex g Other = Other"

text \<open>Modelled from the spec: per-page orientation correction of section 4.1 (row flip,
  column flip or transpose, by the page's orientation metadata, if present).\<close>

definition upright :: "Page \<Rightarrow> Page" where
  "upright p =
    (case page_orientation p of
       None \<Rightarrow> p
     | Some FlipRows \<Rightarrow>
         p\<lparr>page_orientation := None,
           page_samples := reindex (\<lambda>x y. (x, page_height p - 1 - y)) (page_samples p)\<rparr>
     | Some FlipColumns \<Rightarrow>
         p\<lparr>page_orientation := None,
           page_samples := reindex (\<lambda>x y. (page_width p - 1 - x, y)) (page_samples p)\<rparr>
     | Some Transpose \<Rightarrow>
         p\<lparr>page_width := page_height p, page_height := page_width p,
           page_orientation := None,
           page_samples := reindex (\<lambda>x y. (y, x)) (page_samples p)\<rparr>)"

text \<open>Modelled from the spec: the normalised samples of one page, row by row.\<close>

definition page_slice :: "Page \<Rightarrow> real list" where
  "page_slice p =
    concat (map (\<lambda>y. map (\<lambda>x. sample_at (page_samples p) x y) [0..<page_width p])
              [0..<page_height p])"

text \<open>Modelled from the spec: construct-from-decoded-pages of section 4.2, the slices
  stacked along the depth axis.\<close>

definition build_volume :: "Page \<Rightarrow> Page list \<Rightarrow> Volume" where
  "build_volume first rest =
    \<lparr>vol_width = page_width first, vol_height = page_height first,
     vol_depth = Suc (length rest), vol_data = concat (map page_slice (first # rest))\<rparr>"

text \<open>Modelled from the spec: the Slice Decoder of section 4.1. The container parser
  (page count and pages out of the bytes) is the parameter \<open>parse\<close>; \<open>None\<close> is a byte
  stream that does not parse at all. Pages that disagree on orientation metadata are
  rejected as section 9 asks.\<close>

definition decode :: "(byte list \<Rightarrow> Page list option) \<Rightarrow> byte list \<Rightarrow> DecodeError + Volume" where
  "decode parse bytes =
    (case parse bytes of
       None \<Rightarrow> Inl CorruptInput
     | Some [] \<Rightarrow> Inl EmptyVolume
     | Some (first # rest) \<Rightarrow>
         if list_ex (\<lambda>p. \<not> supported (page_samples p)) (first # rest)
         then Inl UnsupportedFormat
         else if list_ex (\<lambda>p. page_width p \<noteq> page_width first \<or>
                               page_height p \<noteq> page_height first) rest
         then Inl InconsistentDimensions
         else if list_ex (\<lambda>p. page_orientation p \<noteq> page_orientation first) rest
         then Inl InconsistentDimensions
         else Inr (build_volume (upright first) (map upright rest)))"

subsection \<open>Camera (specification 3, 4.3)\<close>

text \<open>Modelled from the spec: the Camera of section 3.\<close>

record Camera =
  theta :: real
  phi :: real
  distance :: real
  pan_offset :: "real \<times> real"
  viewport_width :: nat
  viewport_height :: nat

text \<open>Modelled from the spec: the two zoom formulas section 4.3 allows,
  \<open>distance *= (1 + delta)\<close> and \<open>distance += delta\<close>.\<close>

datatype ZoomLaw = Scale | Shift

text \<open>Modelled from the spec: a pixel of the Frame Buffer of section 3, four channels
  R, G, B, A with values 0 to 255.\<close>

type_synonym rgba = "byte \<times> byte \<times> byte \<times> byte"

text \<open>Modelled from the spec: what sections 3 to 4.4 leave open: the container parser,
  the pole bound of \<open>phi\<close>, the minimum and maximum distance, which zoom formula is
  used, the background colour and the ray caster giving the colour of a pixel (steps 1
  to 5 of section 4.4).\<close>

record Settings =
  container_parser :: "byte list \<Rightarrow> Page list option"
  max_phi :: real
  min_distance :: real
  max_distance :: real
  zoom_law :: ZoomLaw
  background :: rgba
  ray_cast :: "Volume \<Rightarrow> Camera \<Rightarrow> nat \<Rightarrow> nat \<Rightarrow> rgba"

text \<open>Modelled from the spec: clamping to a minimum and a maximum (sections 3, 4.3).\<close>

definition clamp :: "real \<Rightarrow> real \<Rightarrow> real \<Rightarrow> real" where
  "clamp lo hi x = max lo (min hi x)"

text \<open>Modelled from the spec: wrapping an angle modulo a full turn (section 4.3, orbit).\<close>

definition wrap_turn :: "real \<Rightarrow> real" where
  "wrap_turn a = a - 2 * pi * of_int \<lfloor>a / (2 * pi)\<rfloor>"

text \<open>Modelled from the spec: \<open>orbit\<close> of section 4.3: \<open>theta\<close> wrapped, \<open>phi\<close> clamped
  inside the poles.\<close>

definition cam_orbit :: "Settings \<Rightarrow> real \<Rightarrow> real \<Rightarrow> Camera \<Rightarrow> Camera" where
  "cam_orbit S deltaTheta deltaPhi c =
    c\<lparr>theta := wrap_turn (theta c + deltaTheta),
      phi := clamp (- max_phi S) (max_phi S) (phi c + deltaPhi)\<rparr>"

text \<open>Modelled from the spec: \<open>zoom\<close> of section 4.3: the distance scaled or shifted,
  then clamped to the minimum and maximum distance.\<close>

definition cam_zoom :: "Settings \<Rightarrow> real \<Rightarrow> Camera \<Rightarrow> Camera" where
  "cam_zoom S delta c =
    c\<lparr>distance := clamp (min_distance S) (max_distance S)
        (case zoom_law S of
           Scale \<Rightarrow> distance c * (1 + delta)
         | Shift \<Rightarrow> distance c + delta)\<rparr>"

text \<open>Modelled from the spec: \<open>pan\<close> of section 4.3: the offset accumulates the deltas
  scaled by the current distance.\<close>

definition cam_pan :: "real \<Rightarrow> real \<Rightarrow> Camera \<Rightarrow> Camera" where
  "cam_pan dx dy c =
    c\<lparr>pan_offset := (fst (pan_offset c) + dx * distance c,
                     snd (pan_offset c) + dy * distance c)\<rparr>"

text \<open>Modelled from the spec: \<open>resize\<close> of section 4.3: only the viewport changes.\<close>

definition cam_resize :: "nat \<Rightarrow> nat \<Rightarrow> Camera \<Rightarrow> Camera" where
  "cam_resize w h c = c\<lparr>viewport_width := w, viewport_height := h\<rparr>"

subsection \<open>Renderer and facade (specification 3, 4.4, 4.5)\<close>

text \<open>Modelled from the spec: the state the Engine Facade owns: the volume store (empty
  before the first load), the camera and the frame buffer.\<close>

record Engine =
  volume :: "Volume option"
  camera :: Camera
  frame_buffer :: "byte list"

text \<open>Modelled from the spec: the Frame Buffer of section 3 is written in place, four
  bytes R, G, B, A per pixel, pixel \<open>i\<close> of the row-major grid at bytes \<open>4 i\<close> to
  \<open>4 i + 3\<close>.\<close>

definition write_pixel :: "byte list \<Rightarrow> nat \<Rightarrow> rgba \<Rightarrow> byte list" where
  "write_pixel buf i p =
    (case p of (r, g, b, a) \<Rightarrow>
       buf[4 * i := r, 4 * i + 1 := g, 4 * i + 2 := b, 4 * i + 3 := a])"

text \<open>Modelled from the spec: one frame written into the buffer, every pixel of the
  \<open>w\<close> by \<open>h\<close> viewport once (section 4.4, steps 1 and 5).\<close>

definition paint :: "(nat \<Rightarrow> nat \<Rightarrow> rgba) \<Rightarrow> nat \<Rightarrow> nat \<Rightarrow> byte list \<Rightarrow> byte list" where
  "paint colour w h buf =
    fold (\<lambda>i b. write_pixel b i (colour (i mod w) (i div w))) [0..<w * h] buf"

text \<open>Modelled from the spec: the colour of the pixel in column \<open>x\<close> of row \<open>y\<close>
  (row 0 on top): the background when no volume is loaded (section 4.4, failure modes),
  the ray caster's result otherwise.\<close>

definition pixel :: "Settings \<Rightarrow> Engine \<Rightarrow> nat \<Rightarrow> nat \<Rightarrow> rgba" where
  "pixel S en x y =
    (case volume en of
       None \<Rightarrow> background S
     | Some v \<Rightarrow> ray_cast S v (camera en) x y)"

text \<open>Modelled from the spec: \<open>load_volume\<close> of section 4.5: runs the decoder,
  replaces the volume store on success only and returns the dimensions; a decode
  failure is passed on unchanged.\<close>

definition load_volume :: "Settings \<Rightarrow> byte list \<Rightarrow> Engine \<Rightarrow> (DecodeError + nat list) \<times> Engine" where
  "load_volume S bytes en =
    (case decode (container_parser S) bytes of
       Inl err \<Rightarrow> (Inl err, en)
     | Inr v \<Rightarrow> (Inr [vol_width v, vol_height v, vol_depth v], en\<lparr>volume := Some v\<rparr>))"

text \<open>Modelled from the spec: \<open>render\<close> of section 4.5: fills the frame buffer for the
  current viewport and returns it.\<close>

definition render :: "Settings \<Rightarrow> Engine \<Rightarrow> byte list \<times> Engine" where
  "render S en =
    (let buf = paint (pixel S en) (viewport_width (camera en)) (viewport_height (camera en))
                 (frame_buffer en)
     in (buf, en\<lparr>frame_buffer := buf\<rparr>))"

text \<open>Modelled from the spec: \<open>orbit\<close>, \<open>zoom\<close> and \<open>pan\<close> of section 4.5 forward to
  the camera.\<close>

definition orbit :: "Settings \<Rightarrow> real \<Rightarrow> real \<Rightarrow> Engine \<Rightarrow> Engine" where
  "orbit S deltaTheta deltaPhi en = en\<lparr>camera := cam_orbit S deltaTheta deltaPhi (camera en)\<rparr>"

text \<open>Modelled from the spec: \<open>zoom\<close> of section 4.5.\<close>

definition zoom :: "Settings \<Rightarrow> real \<Rightarrow> Engine \<Rightarrow> Engine" where
  "zoom S delta en = en\<lparr>camera := cam_zoom S delta (camera en)\<rparr>"

text \<open>Modelled from the spec: \<open>pan\<close> of section 4.5, forwarding to the camera. Its
  parameter list is the one the interface of lines 13-20 declares for the engine: a
  single pair \<open>[deltaX, deltaY]\<close>.\<close>

definition pan :: "real \<times> real \<Rightarrow> Engine \<Rightarrow> Engine" where
  "pan delta en = en\<lparr>camera := cam_pan (fst delta) (snd delta) (camera en)\<rparr>"

text \<open>Modelled from the spec: \<open>pan\<close> as a caller reaches it through the interface of
  lines 13-20. A call whose argument list has the declared form, one array of two
  numbers, is forwarded to \<open>pan\<close>; any other argument list is not a call of the
  interface. Nothing is returned besides the engine's new state.\<close>

definition facade_pan :: "jsval list \<Rightarrow> Engine \<Rightarrow> Engine option" where
  "facade_pan args en =
    (case args of
       [Arr [Num dx, Num dy]] \<Rightarrow> Some (pan (dx, dy) en)
     | _ \<Rightarrow> None)"

text \<open>Modelled from the spec: \<open>resize\<close> of section 4.5: updates the viewport,
  invalidates and reallocates the frame buffer.\<close>

definition resize :: "nat \<Rightarrow> nat \<Rightarrow> Engine \<Rightarrow> Engine" where
  "resize w h en =
    en\<lparr>camera := cam_resize w h (camera en), frame_buffer := replicate (4 * w * h) 0\<rparr>"

text \<open>Modelled from the spec: the operations of section 4.5 as data, for sequences of
  calls.\<close>

datatype Operation =
    Load "byte list"
  | Render
  | Orbit real real
  | Zoom real
  | Pan real real
  | Resize nat nat

text \<open>Modelled from the spec: one operation applied to the engine state.\<close>

fun step :: "Settings \<Rightarrow> Operation \<Rightarrow> Engine \<Rightarrow> Engine" where
  "step S (Load bytes) en = snd (load_volume S bytes en)"
| "step S Render en = snd (render S en)"
| "step S (Orbit deltaTheta deltaPhi) en = orbit S deltaTheta deltaPhi en"
| "step S (Zoom delta) en = zoom S delta en"
| "step S (Pan dx dy) en = pan (dx, dy) en"
| "step S (Resize w h) en = resize w h en"

text \<open>Modelled from the spec: a sequence of operations, run in order.\<close>

definition run :: "Settings \<Rightarrow> Operation list \<Rightarrow> Engine \<Rightarrow> Engine" where
  "run S ops en = fold (step S) ops en"

text \<open>Modelled from the spec: whether an operation is a resize.\<close>

fun is_resize :: "Operation \<Rightarrow> bool" where
  "is_resize (Resize _ _) = True"
| "is_resize _ = False"

text \<open>Modelled from the spec: the four channels of a pixel, in the buffer order R, G,
  B, A of section 3.\<close>

fun channel :: "nat \<Rightarrow> rgba \<Rightarrow> byte" where
  "channel c (r, g, b, a) = (if c = 0 then r else if c = 1 then g else if c = 2 then b else a)"

text \<open>
  Concrete settings and a concrete engine state for the instances below. The parser
  stands for three inputs: one that does not parse, a 3-channel page, and the two-page
  4 by 4 8-bit volume of the specification's end-to-end scenario (page 0 all 0, page 1
  all 255).
\<close>

definition demo_parser :: "byte list \<Rightarrow> Page list option" where
  "demo_parser bytes =
    (case bytes of
       [] \<Rightarrow> None
     | b # _ \<Rightarrow>
        if b = 0 then Some []
        else if b = 3
        then Some [\<lparr>page_width = 4, page_height = 4, page_orientation = None,
                    page_samples = Other\<rparr>]
        else Some [\<lparr>page_width = 4, page_height = 4, page_orientation = None,
                    page_samples = Gray8 (\<lambda>x y. 0)\<rparr>,
                   \<lparr>page_width = 4, page_height = 4, page_orientation = None,
                    page_samples = Gray8 (\<lambda>x y. 255)\<rparr>])"

definition demo_settings :: Settings where
  "demo_settings =
    \<lparr>container_parser = demo_parser, max_phi = 3 / 2, min_distance = 1 / 10,
     max_distance = 100, zoom_law = Scale, background = (0, 0, 0, 0),
     ray_cast = (\<lambda>v c x y. (255, 255, 255, 255))\<rparr>"

definition demo_engine :: Engine where
  "demo_engine =
    \<lparr>volume = None,
     camera = \<lparr>theta = 0, phi = 0, distance = 5, pan_offset = (0, 0),
               viewport_width = 800, viewport_height = 600\<rparr>,
     frame_buffer = replicate (4 * 800 * 600) 0\<rparr>"

section \<open>Properties of the host component\<close>

subsection \<open>Calls on the engine among the effects\<close>

lemma calls_of_simps:
  "calls_of m [] = []"
  "calls_of m (Call n args # effs) = (if n = m then args # calls_of m effs else calls_of m effs)"
  "calls_of m (GetContext # effs) = calls_of m effs"
  "calls_of m (PutImageData img # effs) = calls_of m effs"
  "calls_of m (CancelAnimationFrame k # effs) = calls_of m effs"
  "calls_of m (ConsoleError s # effs) = calls_of m effs"
  "calls_of m (PreventDefault # effs) = calls_of m effs"
  "calls_of m (ClearFileInput # effs) = calls_of m effs"
  by (simp_all add: calls_of_def)

lemma calls_of_append: "calls_of m (xs @ ys) = calls_of m xs @ calls_of m ys"
  by (simp add: calls_of_def)

lemma calls_of_renderFrame_try:
  "m \<noteq> ''render'' \<Longrightarrow> calls_of m (snd (renderFrame_try v c)) = []"
  by (auto simp: renderFrame_try_def calls_of_simps split: sum.splits)

lemma calls_of_renderFrame:
  "m \<noteq> ''render'' \<Longrightarrow> calls_of m (snd (renderFrame viewer doc st)) = []"
  using calls_of_renderFrame_try
  by (auto simp: renderFrame_def calls_of_simps calls_of_append
      split: option.splits sum.splits prod.splits)
    (metis snd_conv)+

subsection \<open>renderFrame\<close>

text \<open>The \<open>ImageData\<close> constructor accepts a buffer exactly when it fills the canvas.\<close>

lemma new_ImageData_fits:
  "0 < sw \<Longrightarrow> 0 < sh \<Longrightarrow> length bytes = 4 * sw * sh \<Longrightarrow>
   new_ImageData bytes sw sh = Inr \<lparr>img_data = bytes, img_width = sw, img_height = sh\<rparr>"
  by (simp add: new_ImageData_def)

lemma new_ImageData_Inr:
  "new_ImageData bytes sw sh = Inr img \<Longrightarrow>
   0 < sw \<and> 0 < sh \<and> length bytes = 4 * sw * sh \<and> img_data img = bytes"
  by (auto simp: new_ImageData_def split: if_splits)

lemma renderFrame_ready:
  assumes "canvasRef doc = Some canvas" "context2d canvas" "render_r v = Inr frame"
    "0 < canvas_width canvas" "0 < canvas_height canvas"
    "length frame = 4 * canvas_width canvas * canvas_height canvas"
  shows "renderFrame (Some v) doc st =
    (st, [GetContext, Call ''render'' [],
          PutImageData \<lparr>img_data = frame, img_width = canvas_width canvas,
                         img_height = canvas_height canvas\<rparr>])"
  using assms by (simp add: renderFrame_def renderFrame_try_def new_ImageData_fits)

lemma renderFrame_put:
  assumes "PutImageData img \<in> set (snd (renderFrame viewer doc st))"
  shows "\<exists>v pre. viewer = Some v \<and> render_r v = Inr (img_data img) \<and>
           snd (renderFrame viewer doc st) = pre @ [Call ''render'' [], PutImageData img]"
  using assms
  by (auto simp: renderFrame_def renderFrame_try_def
      split: option.splits sum.splits if_splits dest: new_ImageData_Inr)

text \<open>
  Before the engine is initialised (\<open>viewer\<close> is null) the guards at the head of the
  handlers return at once: nothing is called and the state is left as it is.
\<close>

lemma without_engine:
  "renderFrame None doc st = (st, [])"
  "handleResize None doc st = (st, doc, [])"
  "handleMouseMove None doc st e = (st, [])"
  "handleWheel None doc st w = (st, [PreventDefault])"
  "handleFileUpload None doc st selected = (st, doc, [])"
  by (simp_all add: renderFrame_def handleResize_def handleMouseMove_def handleWheel_def
      handleFileUpload_def split: option.splits)

subsection \<open>Calls made by the pointer and wheel handlers\<close>

lemma handleMouseMove_calls:
  assumes "isDragging st"
  shows "mouseButton st = Some 0 \<Longrightarrow>
           calls_of ''orbit'' (snd (handleMouseMove (Some v) doc st e)) =
             [[Num ((clientX e - fst (lastMousePos st)) * 0.005),
               Num ((clientY e - snd (lastMousePos st)) * 0.005)]]"
    and "mouseButton st = Some 2 \<Longrightarrow>
           calls_of ''pan'' (snd (handleMouseMove (Some v) doc st e)) =
             [[Arr [Num ((clientX e - fst (lastMousePos st)) * 0.1),
                    Num ((clientY e - snd (lastMousePos st)) * 0.1)]]]"
  using assms
    calls_of_renderFrame [of "''orbit''" "Some v" doc
        "st\<lparr>lastMousePos := (clientX e, clientY e), error := None\<rparr>"]
    calls_of_renderFrame [of "''pan''" "Some v" doc
        "st\<lparr>lastMousePos := (clientX e, clientY e), error := None\<rparr>"]
  by (auto simp: handleMouseMove_def Let_def calls_of_simps calls_of_append
      split: option.splits prod.splits)

lemma handleWheel_calls:
  "calls_of ''zoom'' (snd (handleWheel (Some v) doc st w)) =
     [[Num (if 0 < deltaY w then 0.1 else - 0.1)]]"
  using calls_of_renderFrame [of "''zoom''" "Some v" doc st]
  by (auto simp: handleWheel_def calls_of_simps Let_def split: option.splits prod.splits)

lemma handleMouseMove_put:
  assumes "PutImageData img \<in> set (snd (handleMouseMove viewer doc st e))"
  shows "\<exists>v. viewer = Some v \<and> render_r v = Inr (img_data img)"
proof -
  let ?st = "st\<lparr>lastMousePos := (clientX e, clientY e), error := None\<rparr>"
  from assms have "PutImageData img \<in> set (snd (renderFrame viewer doc ?st))"
    by (auto simp: handleMouseMove_def Let_def split: option.splits if_splits prod.splits)
  from renderFrame_put [OF this] show ?thesis by blast
qed

subsection \<open>The pan operation and its parameter list\<close>

text \<open>A call has the form \<open>facade_pan\<close> accepts exactly when its arguments have the
  parameter types the interface declares for \<open>pan\<close>.\<close>

lemma facade_pan_typed:
  "(facade_pan args en \<noteq> None) = list_all2 has_type args [TTuple [TNumber, TNumber]]"
proof (cases args)
  case Nil
  then show ?thesis by (simp add: facade_pan_def)
next
  case (Cons a rest)
  show ?thesis
  proof (cases rest)
    case (Cons b rest')
    then show ?thesis using \<open>args = a # rest\<close>
      by (simp add: facade_pan_def list_all2_Cons1 split: jsval.split list.split)
  next
    case Nil
    note rest = this
    show ?thesis
    proof (cases a)
      case (Num x)
      then show ?thesis using \<open>args = a # rest\<close> rest by (simp add: facade_pan_def)
    next
      case (U8 bs)
      then show ?thesis using \<open>args = a # rest\<close> rest by (simp add: facade_pan_def)
    next
      case (Arr vs)
      have "(case vs of [Num dx, Num dy] \<Rightarrow> True | _ \<Rightarrow> False) =
            list_all2 has_type vs [TNumber, TNumber]"
      proof (cases vs)
        case Nil
        then show ?thesis by simp
      next
        case (Cons p ps)
        note vs = this
        show ?thesis
        proof (cases ps)
          case Nil
          then show ?thesis using vs by (cases p) simp_all
        next
          case (Cons q qs)
          then show ?thesis using vs
            by (cases p; cases q; cases qs) simp_all
        qed
      qed
      moreover have "(facade_pan [Arr vs] en \<noteq> None) =
            (case vs of [Num dx, Num dy] \<Rightarrow> True | _ \<Rightarrow> False)"
        by (simp add: facade_pan_def split: list.split jsval.split)
      ultimately show ?thesis using Arr \<open>args = a # rest\<close> rest by simp
    qed
  qed
qed

text \<open>
  Claim C1, as amended. The pan operation the engine exposes takes one argument, the
  two-element numeric array \<open>[deltaX, deltaY]\<close> (not two scalar arguments): that is
  its declared parameter list, with no return value; exactly the argument lists of that
  form are calls of it; and the call the component makes on a secondary-button drag has
  that form. For every pair of deltas the call forwards to the camera (the new state is
  the old one with the camera panned) and does not by itself produce a frame: frame
  buffer and volume are as before, and the effect is observed by a separate \<open>render\<close>,
  which paints from the panned camera. On the host side, a drag whose \<open>render\<close> call
  fails puts no image on the drawing surface although \<open>pan\<close> was called.
\<close>

theorem pan_takes_one_pair:
  "map_of VolumeViewerWasm ''pan'' = Some ([TTuple [TNumber, TNumber]], TVoid) \<and>
   (facade_pan args en \<noteq> None) = list_all2 has_type args [TTuple [TNumber, TNumber]] \<and>
   facade_pan [Arr [Num dx, Num dy]] en = Some (en\<lparr>camera := cam_pan dx dy (camera en)\<rparr>) \<and>
   frame_buffer (pan (dx, dy) en) = frame_buffer en \<and>
   volume (pan (dx, dy) en) = volume en \<and>
   fst (render S (pan (dx, dy) en)) =
     paint (pixel S (en\<lparr>camera := cam_pan dx dy (camera en)\<rparr>))
       (viewport_width (camera en)) (viewport_height (camera en)) (frame_buffer en) \<and>
   (isDragging st \<and> mouseButton st = Some 2 \<longrightarrow>
      (\<exists>a b. calls_of ''pan'' (snd (handleMouseMove (Some v) doc st e)) = [[Arr [Num a, Num b]]]) \<and>
      ((\<exists>t. render_r v = Inl t) \<longrightarrow>
         (\<forall>img. PutImageData img \<notin> set (snd (handleMouseMove (Some v) doc st e)))))"
proof (intro conjI allI impI)
  show "map_of VolumeViewerWasm ''pan'' = Some ([TTuple [TNumber, TNumber]], TVoid)"
    by (simp add: VolumeViewerWasm_def)
next
  show "(facade_pan args en \<noteq> None) = list_all2 has_type args [TTuple [TNumber, TNumber]]"
    by (rule facade_pan_typed)
next
  show "facade_pan [Arr [Num dx, Num dy]] en = Some (en\<lparr>camera := cam_pan dx dy (camera en)\<rparr>)"
    by (simp add: facade_pan_def pan_def)
next
  show "frame_buffer (pan (dx, dy) en) = frame_buffer en"
    and "volume (pan (dx, dy) en) = volume en"
    by (simp_all add: pan_def)
next
  show "fst (render S (pan (dx, dy) en)) =
     paint (pixel S (en\<lparr>camera := cam_pan dx dy (camera en)\<rparr>))
       (viewport_width (camera en)) (viewport_height (camera en)) (frame_buffer en)"
    by (simp add: render_def pan_def cam_pan_def Let_def)
next
  assume "isDragging st \<and> mouseButton st = Some 2"
  then have "calls_of ''pan'' (snd (handleMouseMove (Some v) doc st e)) =
             [[Arr [Num ((clientX e - fst (lastMousePos st)) * 0.1),
                    Num ((clientY e - snd (lastMousePos st)) * 0.1)]]]"
    by (simp add: handleMouseMove_calls(2))
  then show "\<exists>a b. calls_of ''pan'' (snd (handleMouseMove (Some v) doc st e)) =
               [[Arr [Num a, Num b]]]"
    by blast
next
  fix img
  assume "\<exists>t. render_r v = Inl t"
  then show "PutImageData img \<notin> set (snd (handleMouseMove (Some v) doc st e))"
    using handleMouseMove_put [of img "Some v" doc st e] by auto
qed

text \<open>
  An instance: deltas 2 and 4 on the 800 by 600 engine state; and a secondary-button
  press at (10, 20) followed by a move to (30, 60), with an engine whose \<open>render\<close>
  throws.
\<close>

theorem pan_takes_one_pair_witness:
  "map_of VolumeViewerWasm ''pan'' = Some ([TTuple [TNumber, TNumber]], TVoid) \<and>
   facade_pan [Arr [Num 2, Num 4]] demo_engine =
     Some (demo_engine\<lparr>camera := cam_pan 2 4 (camera demo_engine)\<rparr>) \<and>
   frame_buffer (pan (2, 4) demo_engine) = frame_buffer demo_engine \<and>
   snd (handleMouseMove (Some (steady_engine\<lparr>render_r := Inl NonError\<rparr>)) small_dom
       (fst (handleMouseDown initial_state \<lparr>clientX = 10, clientY = 20, button = 2\<rparr>))
       \<lparr>clientX = 30, clientY = 60, button = 2\<rparr>) =
     [Call ''pan'' [Arr [Num 2, Num 4]], GetContext, Call ''render'' [],
      ConsoleError ''Render error:'']"
proof -
  note t = pan_takes_one_pair [where args = "[Arr [Num 2, Num 4]]" and en = demo_engine
      and dx = 2 and dy = 4 and S = demo_settings
      and st = "fst (handleMouseDown initial_state \<lparr>clientX = 10, clientY = 20, button = 2\<rparr>)"
      and v = "steady_engine\<lparr>render_r := Inl NonError\<rparr>" and doc = small_dom
      and e = "\<lparr>clientX = 30, clientY = 60, button = 2\<rparr>"]
  have "snd (handleMouseMove (Some (steady_engine\<lparr>render_r := Inl NonError\<rparr>)) small_dom
       (fst (handleMouseDown initial_state \<lparr>clientX = 10, clientY = 20, button = 2\<rparr>))
       \<lparr>clientX = 30, clientY = 60, button = 2\<rparr>) =
     [Call ''pan'' [Arr [Num 2, Num 4]], GetContext, Call ''render'' [],
      ConsoleError ''Render error:'']"
    by (simp add: handleMouseMove_def handleMouseDown_def initial_state_def steady_engine_def
        small_dom_def small_canvas_def renderFrame_def renderFrame_try_def message_of_def)
  with t show ?thesis by simp
qed

text \<open>
  The claim as stated fails: the interface entry of \<open>pan\<close> is not a two-number
  parameter list, the call the component makes on such a drag carries one argument (an
  array), and a call with two scalar arguments neither has the declared type nor is a
  call of the operation.
\<close>

theorem pan_two_scalars_counterexample:
  "map_of VolumeViewerWasm ''pan'' \<noteq> Some ([TNumber, TNumber], TVoid) \<and>
   calls_of ''pan'' (snd (handleMouseMove (Some steady_engine) small_dom
       (fst (handleMouseDown initial_state \<lparr>clientX = 10, clientY = 20, button = 2\<rparr>))
       \<lparr>clientX = 30, clientY = 60, button = 2\<rparr>)) = [[Arr [Num 2, Num 4]]] \<and>
   \<not> list_all2 has_type [Num 2, Num 4] (fst (the (map_of VolumeViewerWasm ''pan''))) \<and>
   facade_pan [Num 2, Num 4] demo_engine = None"
  by (simp add: VolumeViewerWasm_def handleMouseMove_def handleMouseDown_def initial_state_def
      steady_engine_def small_dom_def small_canvas_def renderFrame_def renderFrame_try_def
      new_ImageData_def calls_of_simps facade_pan_def)

subsection \<open>Pointer and wheel interaction\<close>

text \<open>
  Claim C3. For every engine instance, a mouse move during a primary-button drag makes
  one \<open>orbit\<close> call, one during a secondary-button drag makes one \<open>pan\<close> call, and a
  wheel event makes one \<open>zoom\<close> call. When the camera call returns, the canvas has its
  2D context and the rendered frame fills the canvas, the call is followed by a
  \<open>render\<close> call whose buffer is put on the drawing surface, and nothing else is done.
\<close>

theorem interaction_calls_then_render:
  assumes "canvasRef doc = Some canvas" "context2d canvas" "render_r v = Inr frame"
    "0 < canvas_width canvas" "0 < canvas_height canvas"
    "length frame = 4 * canvas_width canvas * canvas_height canvas"
    and "orbit_r v = None" "pan_r v = None" "zoom_r v = None"
  shows
   "(isDragging st \<and> mouseButton st = Some 0 \<longrightarrow>
      calls_of ''orbit'' (snd (handleMouseMove (Some v') doc' st e)) =
        [[Num ((clientX e - fst (lastMousePos st)) * 0.005),
          Num ((clientY e - snd (lastMousePos st)) * 0.005)]] \<and>
      snd (handleMouseMove (Some v) doc st e) =
        [Call ''orbit'' [Num ((clientX e - fst (lastMousePos st)) * 0.005),
                         Num ((clientY e - snd (lastMousePos st)) * 0.005)],
         GetContext, Call ''render'' [],
         PutImageData \<lparr>img_data = frame, img_width = canvas_width canvas,
                        img_height = canvas_height canvas\<rparr>]) \<and>
    (isDragging st \<and> mouseButton st = Some 2 \<longrightarrow>
      calls_of ''pan'' (snd (handleMouseMove (Some v') doc' st e)) =
        [[Arr [Num ((clientX e - fst (lastMousePos st)) * 0.1),
               Num ((clientY e - snd (lastMousePos st)) * 0.1)]]] \<and>
      snd (handleMouseMove (Some v) doc st e) =
        [Call ''pan'' [Arr [Num ((clientX e - fst (lastMousePos st)) * 0.1),
                            Num ((clientY e - snd (lastMousePos st)) * 0.1)]],
         GetContext, Call ''render'' [],
         PutImageData \<lparr>img_data = frame, img_width = canvas_width canvas,
                        img_height = canvas_height canvas\<rparr>]) \<and>
    calls_of ''zoom'' (snd (handleWheel (Some v') doc' st w)) =
        [[Num (if 0 < deltaY w then 0.1 else - 0.1)]] \<and>
    snd (handleWheel (Some v) doc st w) =
        [PreventDefault, Call ''zoom'' [Num (if 0 < deltaY w then 0.1 else - 0.1)],
         GetContext, Call ''render'' [],
         PutImageData \<lparr>img_data = frame, img_width = canvas_width canvas,
                        img_height = canvas_height canvas\<rparr>]"
proof (intro conjI impI)
  assume "isDragging st \<and> mouseButton st = Some 0"
  then show "calls_of ''orbit'' (snd (handleMouseMove (Some v') doc' st e)) =
        [[Num ((clientX e - fst (lastMousePos st)) * 0.005),
          Num ((clientY e - snd (lastMousePos st)) * 0.005)]]"
    by (simp add: handleMouseMove_calls(1))
next
  assume "isDragging st \<and> mouseButton st = Some 0"
  then show "snd (handleMouseMove (Some v) doc st e) =
        [Call ''orbit'' [Num ((clientX e - fst (lastMousePos st)) * 0.005),
                         Num ((clientY e - snd (lastMousePos st)) * 0.005)],
         GetContext, Call ''render'' [],
         PutImageData \<lparr>img_data = frame, img_width = canvas_width canvas,
                        img_height = canvas_height canvas\<rparr>]"
    using assms(7) by (simp add: handleMouseMove_def renderFrame_ready [OF assms(1-6)])
next
  assume "isDragging st \<and> mouseButton st = Some 2"
  then show "calls_of ''pan'' (snd (handleMouseMove (Some v') doc' st e)) =
        [[Arr [Num ((clientX e - fst (lastMousePos st)) * 0.1),
               Num ((clientY e - snd (lastMousePos st)) * 0.1)]]]"
    by (simp add: handleMouseMove_calls(2))
next
  assume "isDragging st \<and> mouseButton st = Some 2"
  then show "snd (handleMouseMove (Some v) doc st e) =
        [Call ''pan'' [Arr [Num ((clientX e - fst (lastMousePos st)) * 0.1),
                            Num ((clientY e - snd (lastMousePos st)) * 0.1)]],
         GetContext, Call ''render'' [],
         PutImageData \<lparr>img_data = frame, img_width = canvas_width canvas,
                        img_height = canvas_height canvas\<rparr>]"
    using assms(8) by (simp add: handleMouseMove_def renderFrame_ready [OF assms(1-6)])
next
  show "calls_of ''zoom'' (snd (handleWheel (Some v') doc' st w)) =
        [[Num (if 0 < deltaY w then 0.1 else - 0.1)]]"
    by (rule handleWheel_calls)
next
  show "snd (handleWheel (Some v) doc st w) =
        [PreventDefault, Call ''zoom'' [Num (if 0 < deltaY w then 0.1 else - 0.1)],
         GetContext, Call ''render'' [],
         PutImageData \<lparr>img_data = frame, img_width = canvas_width canvas,
                        img_height = canvas_height canvas\<rparr>]"
    using assms(9) by (simp add: handleWheel_def renderFrame_ready [OF assms(1-6)])
qed

text \<open>
  An instance: a press at (10, 20) followed by a move to (30, 60), once with the
  primary and once with the secondary button, and a wheel event with delta 3.
\<close>

theorem interaction_calls_then_render_witness:
  "snd (handleMouseMove (Some steady_engine) small_dom
          (fst (handleMouseDown initial_state \<lparr>clientX = 10, clientY = 20, button = 0\<rparr>))
          \<lparr>clientX = 30, clientY = 60, button = 0\<rparr>) =
     [Call ''orbit'' [Num (1 / 10), Num (1 / 5)], GetContext, Call ''render'' [],
      PutImageData \<lparr>img_data = replicate 16 0, img_width = 2, img_height = 2\<rparr>] \<and>
   snd (handleMouseMove (Some steady_engine) small_dom
          (fst (handleMouseDown initial_state \<lparr>clientX = 10, clientY = 20, button = 2\<rparr>))
          \<lparr>clientX = 30, clientY = 60, button = 2\<rparr>) =
     [Call ''pan'' [Arr [Num 2, Num 4]], GetContext, Call ''render'' [],
      PutImageData \<lparr>img_data = replicate 16 0, img_width = 2, img_height = 2\<rparr>] \<and>
   snd (handleWheel (Some steady_engine) small_dom initial_state \<lparr>deltaY = 3\<rparr>) =
     [PreventDefault, Call ''zoom'' [Num (1 / 10)], GetContext, Call ''render'' [],
      PutImageData \<lparr>img_data = replicate 16 0, img_width = 2, img_height = 2\<rparr>]"
proof -
  have c: "canvasRef small_dom = Some small_canvas" "context2d small_canvas"
    "render_r steady_engine = Inr (replicate 16 0)"
    "0 < canvas_width small_canvas" "0 < canvas_height small_canvas"
    "length (replicate 16 (0::byte)) = 4 * canvas_width small_canvas * canvas_height small_canvas"
    "orbit_r steady_engine = None" "pan_r steady_engine = None" "zoom_r steady_engine = None"
    by (simp_all add: small_dom_def small_canvas_def steady_engine_def)
  note t = interaction_calls_then_render [OF c, where v' = steady_engine and doc' = small_dom]
  show ?thesis
    using t [where st = "fst (handleMouseDown initial_state
                            \<lparr>clientX = 10, clientY = 20, button = 0\<rparr>)"
               and e = "\<lparr>clientX = 30, clientY = 60, button = 0\<rparr>" and w = "\<lparr>deltaY = 3\<rparr>"]
          t [where st = "fst (handleMouseDown initial_state
                            \<lparr>clientX = 10, clientY = 20, button = 2\<rparr>)"
               and e = "\<lparr>clientX = 30, clientY = 60, button = 2\<rparr>" and w = "\<lparr>deltaY = 3\<rparr>"]
          t [where st = initial_state and e = "\<lparr>clientX = 30, clientY = 60, button = 2\<rparr>"
               and w = "\<lparr>deltaY = 3\<rparr>"]
    by (simp add: handleMouseDown_def initial_state_def small_canvas_def)
qed

text \<open>
  Claim C10. On a wheel event the component calls \<open>zoom\<close> on its engine exactly once,
  with \<open>0.1\<close> when the event's \<open>deltaY\<close> is positive and with \<open>-0.1\<close> otherwise (zero
  included): only the sign of the wheel delta is used, and a positive wheel delta gives
  the positive argument, which the camera reads as moving away. Without an engine
  instance there is nothing to call.
\<close>

theorem handleWheel_zoom_step:
  "calls_of ''zoom'' (snd (handleWheel viewer doc st e)) =
     (case viewer of
        None \<Rightarrow> []
      | Some v \<Rightarrow> [[Num (if 0 < deltaY e then 1 / 10 else - (1 / 10))]])"
  using calls_of_renderFrame [of "''zoom''" viewer doc st]
  by (auto simp: handleWheel_def calls_of_simps Let_def split: option.splits prod.splits)

text \<open>Instances: wheel deltas 120, 0 and -120.\<close>

theorem handleWheel_zoom_step_witness:
  "calls_of ''zoom'' (snd (handleWheel (Some steady_engine) small_dom initial_state
      \<lparr>deltaY = 120\<rparr>)) = [[Num (1 / 10)]] \<and>
   calls_of ''zoom'' (snd (handleWheel (Some steady_engine) small_dom initial_state
      \<lparr>deltaY = 0\<rparr>)) = [[Num (- (1 / 10))]] \<and>
   calls_of ''zoom'' (snd (handleWheel (Some steady_engine) small_dom initial_state
      \<lparr>deltaY = - 120\<rparr>)) = [[Num (- (1 / 10))]]"
  using handleWheel_zoom_step [of "Some steady_engine" small_dom initial_state "\<lparr>deltaY = 120\<rparr>"]
    handleWheel_zoom_step [of "Some steady_engine" small_dom initial_state "\<lparr>deltaY = 0\<rparr>"]
    handleWheel_zoom_step [of "Some steady_engine" small_dom initial_state "\<lparr>deltaY = - 120\<rparr>"]
  by simp

subsection \<open>File upload\<close>

text \<open>\<open>endsWith\<close> holds exactly of the strings that have the given suffix.\<close>

lemma endsWith_iff: "endsWith s t \<longleftrightarrow> (\<exists>p. s = p @ t)"
  unfolding endsWith_def
  by (metis append_eq_conv_conj append_take_drop_id diff_add_inverse2 length_append
      length_drop le_add2)

text \<open>The try block on each of its early exits.\<close>

lemma try_bad_extension:
  "\<not> endsWith (toLowerCase (file_name file)) ''.tif'' \<Longrightarrow>
   \<not> endsWith (toLowerCase (file_name file)) ''.tiff'' \<Longrightarrow>
   handleFileUpload_try v doc st file =
     (Inl (Error ''Please select a TIFF file''),
      st\<lparr>isLoading := True, error := None, dimensions := None\<rparr>, doc, [])"
  by (simp add: handleFileUpload_try_def)

lemma try_oversize:
  "MAX_FILE_SIZE < file_size file \<Longrightarrow>
   \<exists>m. handleFileUpload_try v doc st file =
     (Inl (Error m),
      st\<lparr>isLoading := True, error := None, dimensions := None\<rparr>, doc, []) \<and>
     m = (if \<not> endsWith (toLowerCase (file_name file)) ''.tif'' \<and>
             \<not> endsWith (toLowerCase (file_name file)) ''.tiff''
          then ''Please select a TIFF file'' else ''File size too large (max 256MB)'')"
  by (simp add: handleFileUpload_try_def)

lemma try_load_rejected:
  assumes "endsWith (toLowerCase (file_name file)) ''.tif'' \<or>
           endsWith (toLowerCase (file_name file)) ''.tiff''"
    and "file_size file \<le> MAX_FILE_SIZE"
    and "file_content file = Inr bytes"
    and "load_volume_r v bytes = Inl t"
  shows "\<exists>effs. handleFileUpload_try v doc st file =
          (Inl t, st\<lparr>isLoading := True, error := None, dimensions := None\<rparr>, doc, effs)"
  using assms by (auto simp: handleFileUpload_try_def Let_def)

lemma try_malformed:
  assumes "endsWith (toLowerCase (file_name file)) ''.tif'' \<or>
           endsWith (toLowerCase (file_name file)) ''.tiff''"
    and "file_size file \<le> MAX_FILE_SIZE"
    and "file_content file = Inr bytes"
    and "load_volume_r v bytes = Inr res"
    and "res = None \<or> length (the res) \<noteq> 3"
  shows "\<exists>effs. handleFileUpload_try v doc st file =
          (Inl (Error ''Invalid volume dimensions received''),
           st\<lparr>isLoading := True, error := None, dimensions := None\<rparr>, doc, effs)"
  using assms by (cases res) (auto simp: handleFileUpload_try_def Let_def)

text \<open>The catch and finally blocks after a throw in the try block.\<close>

lemma upload_failed:
  "handleFileUpload_try v doc st file = (Inl t, st', doc', effs) \<Longrightarrow>
   handleFileUpload (Some v) doc st (Some file) =
     (st'\<lparr>isLoading := False, error := Some (message_of t ''Failed to load image''),
          dimensions := None\<rparr>,
      doc', effs @ [ConsoleError ''Error loading file:'', ClearFileInput])"
  by (simp add: handleFileUpload_def)

lemma upload_thrown:
  assumes "fst (handleFileUpload_try v doc st file) = Inl t"
  shows "dimensions (fst (handleFileUpload (Some v) doc st (Some file))) = None \<and>
         error (fst (handleFileUpload (Some v) doc st (Some file))) =
           Some (message_of t ''Failed to load image'') \<and>
         isLoading (fst (handleFileUpload (Some v) doc st (Some file))) = False"
  using assms by (cases "handleFileUpload_try v doc st file") (simp add: handleFileUpload_def)

text \<open>
  Claim C5. For a selected file of more than 256 MiB (256 * 1024 * 1024 bytes) the
  upload handler never calls \<open>load_volume\<close>, so the engine is never handed such
  bytes; and for every engine instance \<open>v\<close> the handler ends in failure: an error
  message is stored (the extension message if the name is not a TIFF name either, the
  size message otherwise), the dimensions are unset and loading is over.
\<close>

theorem upload_oversize_rejected:
  assumes "256 * 1024 * 1024 < file_size file"
  shows "calls_of ''load_volume'' (snd (snd (handleFileUpload viewer doc st (Some file)))) = [] \<and>
         error (fst (handleFileUpload (Some v) doc st (Some file))) =
           Some (if \<not> endsWith (toLowerCase (file_name file)) ''.tif'' \<and>
                    \<not> endsWith (toLowerCase (file_name file)) ''.tiff''
                 then ''Please select a TIFF file''
                 else ''File size too large (max 256MB)'') \<and>
         dimensions (fst (handleFileUpload (Some v) doc st (Some file))) = None \<and>
         isLoading (fst (handleFileUpload (Some v) doc st (Some file))) = False"
proof -
  from assms have "MAX_FILE_SIZE < file_size file" by (simp add: MAX_FILE_SIZE_def)
  from try_oversize [OF this, of v doc st] obtain m where
    t: "handleFileUpload_try v doc st file =
         (Inl (Error m), st\<lparr>isLoading := True, error := None, dimensions := None\<rparr>, doc, [])"
    and m: "m = (if \<not> endsWith (toLowerCase (file_name file)) ''.tif'' \<and>
             \<not> endsWith (toLowerCase (file_name file)) ''.tiff''
          then ''Please select a TIFF file'' else ''File size too large (max 256MB)'')"
    by blast
  have "calls_of ''load_volume'' (snd (snd (handleFileUpload viewer doc st (Some file)))) = []"
  proof (cases viewer)
    case None
    then show ?thesis by (simp add: handleFileUpload_def calls_of_simps)
  next
    case (Some v')
    from try_oversize [OF \<open>MAX_FILE_SIZE < file_size file\<close>, of v' doc st] obtain m' where
      "handleFileUpload_try v' doc st file =
         (Inl (Error m'), st\<lparr>isLoading := True, error := None, dimensions := None\<rparr>, doc, [])"
      by blast
    from upload_failed [OF this] show ?thesis
      unfolding Some by (simp add: calls_of_simps)
  qed
  then show ?thesis
    unfolding upload_failed [OF t]
    by (simp add: message_of_def m)
qed

text \<open>An instance: a TIFF file one byte over the bound, after an earlier successful load.\<close>

theorem upload_oversize_rejected_witness:
  "256 * 1024 * 1024 <
     file_size \<lparr>file_name = ''Stack.TIF'', file_size = 268435457, file_content = Inr [1]\<rparr> \<and>
   calls_of ''load_volume'' (snd (snd (handleFileUpload (Some steady_engine) small_dom
      (initial_state\<lparr>isLoading := False, dimensions := Some [4, 4, 2]\<rparr>)
      (Some \<lparr>file_name = ''Stack.TIF'', file_size = 268435457, file_content = Inr [1]\<rparr>)))) = [] \<and>
   error (fst (handleFileUpload (Some steady_engine) small_dom
      (initial_state\<lparr>isLoading := False, dimensions := Some [4, 4, 2]\<rparr>)
      (Some \<lparr>file_name = ''Stack.TIF'', file_size = 268435457, file_content = Inr [1]\<rparr>))) =
     Some ''File size too large (max 256MB)'' \<and>
   dimensions (fst (handleFileUpload (Some steady_engine) small_dom
      (initial_state\<lparr>isLoading := False, dimensions := Some [4, 4, 2]\<rparr>)
      (Some \<lparr>file_name = ''Stack.TIF'', file_size = 268435457, file_content = Inr [1]\<rparr>))) = None"
  using upload_oversize_rejected [of
      "\<lparr>file_name = ''Stack.TIF'', file_size = 268435457, file_content = Inr [1]\<rparr>"
      "Some steady_engine" small_dom "initial_state\<lparr>isLoading := False, dimensions := Some [4, 4, 2]\<rparr>"
      steady_engine]
  by (simp add: toLowerCase_def lower_char_def endsWith_def)

text \<open>
  Claim C8. For a selected file whose name, lower-cased, ends neither in \<open>.tif\<close> nor in
  \<open>.tiff\<close>, the upload handler never calls \<open>load_volume\<close>; and for every engine
  instance \<open>v\<close> the handler ends in failure with the message "Please select a TIFF
  file", the dimensions unset and loading over. The extension is tested before anything
  is read from the file.
\<close>

theorem upload_bad_extension_rejected:
  assumes "\<not> endsWith (toLowerCase (file_name file)) ''.tif''"
    and "\<not> endsWith (toLowerCase (file_name file)) ''.tiff''"
  shows "calls_of ''load_volume'' (snd (snd (handleFileUpload viewer doc st (Some file)))) = [] \<and>
         error (fst (handleFileUpload (Some v) doc st (Some file))) =
           Some ''Please select a TIFF file'' \<and>
         dimensions (fst (handleFileUpload (Some v) doc st (Some file))) = None \<and>
         isLoading (fst (handleFileUpload (Some v) doc st (Some file))) = False"
proof -
  have "calls_of ''load_volume'' (snd (snd (handleFileUpload viewer doc st (Some file)))) = []"
  proof (cases viewer)
    case None
    then show ?thesis by (simp add: handleFileUpload_def calls_of_simps)
  next
    case (Some v')
    show ?thesis
      unfolding Some upload_failed [OF try_bad_extension [OF assms]]
      by (simp add: calls_of_simps)
  qed
  then show ?thesis
    unfolding upload_failed [OF try_bad_extension [OF assms]]
    by (simp add: message_of_def)
qed

text \<open>An instance: a PNG file of twelve bytes.\<close>

theorem upload_bad_extension_rejected_witness:
  "\<not> endsWith (toLowerCase ''scan.tiff.PNG'') ''.tif'' \<and>
   \<not> endsWith (toLowerCase ''scan.tiff.PNG'') ''.tiff'' \<and>
   calls_of ''load_volume'' (snd (snd (handleFileUpload (Some steady_engine) small_dom
      initial_state
      (Some \<lparr>file_name = ''scan.tiff.PNG'', file_size = 12, file_content = Inr [1]\<rparr>)))) = [] \<and>
   error (fst (handleFileUpload (Some steady_engine) small_dom initial_state
      (Some \<lparr>file_name = ''scan.tiff.PNG'', file_size = 12, file_content = Inr [1]\<rparr>))) =
     Some ''Please select a TIFF file''"
proof -
  have a: "\<not> endsWith (toLowerCase (file_name
              \<lparr>file_name = ''scan.tiff.PNG'', file_size = 12, file_content = Inr [1]\<rparr>)) ''.tif''"
    and b: "\<not> endsWith (toLowerCase (file_name
              \<lparr>file_name = ''scan.tiff.PNG'', file_size = 12, file_content = Inr [1]\<rparr>)) ''.tiff''"
    by (simp_all add: toLowerCase_def lower_char_def endsWith_def)
  from upload_bad_extension_rejected [OF a b, of "Some steady_engine" small_dom initial_state
      steady_engine] a b
  show ?thesis by simp
qed

text \<open>
  Claim C9. Each failing path of the upload handler named in the claim (bad extension,
  oversize file, \<open>load_volume\<close> rejecting, a result that is null or not of length 3)
  is a throw in the try block, and after every throw in the try block the handler ends
  with the dimensions set to null, a non-null error message (the thrown error's message,
  or "Failed to load image") and loading over, whatever dimensions the state held
  before.
\<close>

theorem upload_failure_forgets_dimensions:
  "(((\<not> endsWith (toLowerCase (file_name file)) ''.tif'' \<and>
      \<not> endsWith (toLowerCase (file_name file)) ''.tiff'') \<or>
     MAX_FILE_SIZE < file_size file \<or>
     (\<exists>bytes. file_content file = Inr bytes \<and>
        (case load_volume_r v bytes of
           Inl t \<Rightarrow> True
         | Inr res \<Rightarrow> res = None \<or> length (the res) \<noteq> 3))) \<longrightarrow>
    (\<exists>t. fst (handleFileUpload_try v doc st file) = Inl t)) \<and>
   (\<forall>t. fst (handleFileUpload_try v doc st file) = Inl t \<longrightarrow>
      dimensions (fst (handleFileUpload (Some v) doc st (Some file))) = None \<and>
      error (fst (handleFileUpload (Some v) doc st (Some file))) =
        Some (message_of t ''Failed to load image'') \<and>
      error (fst (handleFileUpload (Some v) doc st (Some file))) \<noteq> None \<and>
      isLoading (fst (handleFileUpload (Some v) doc st (Some file))) = False)"
proof (intro conjI impI allI)
  assume a: "(\<not> endsWith (toLowerCase (file_name file)) ''.tif'' \<and>
      \<not> endsWith (toLowerCase (file_name file)) ''.tiff'') \<or>
     MAX_FILE_SIZE < file_size file \<or>
     (\<exists>bytes. file_content file = Inr bytes \<and>
        (case load_volume_r v bytes of
           Inl t \<Rightarrow> True
         | Inr res \<Rightarrow> res = None \<or> length (the res) \<noteq> 3))"
  show "\<exists>t. fst (handleFileUpload_try v doc st file) = Inl t"
  proof (cases "\<not> endsWith (toLowerCase (file_name file)) ''.tif'' \<and>
            \<not> endsWith (toLowerCase (file_name file)) ''.tiff''")
    case True
    then show ?thesis using try_bad_extension [of "file" v doc st] by simp
  next
    case ext: False
    show ?thesis
    proof (cases "MAX_FILE_SIZE < file_size file")
      case True
      from try_oversize [OF this, of v doc st] show ?thesis by auto
    next
      case False
      with ext a obtain bytes where b: "file_content file = Inr bytes"
        and r: "case load_volume_r v bytes of Inl t \<Rightarrow> True
                | Inr res \<Rightarrow> res = None \<or> length (the res) \<noteq> 3"
        by auto
      show ?thesis
      proof (cases "load_volume_r v bytes")
        case (Inl t)
        from try_load_rejected [OF _ _ b Inl, of doc st] ext False show ?thesis by auto
      next
        case (Inr res)
        with r have "res = None \<or> length (the res) \<noteq> 3" by simp
        from try_malformed [OF _ _ b Inr this, of doc st] ext False show ?thesis by auto
      qed
    qed
  qed
next
  fix t
  assume "fst (handleFileUpload_try v doc st file) = Inl t"
  from upload_thrown [OF this]
  show "dimensions (fst (handleFileUpload (Some v) doc st (Some file))) = None"
    and "error (fst (handleFileUpload (Some v) doc st (Some file))) =
        Some (message_of t ''Failed to load image'')"
    and "error (fst (handleFileUpload (Some v) doc st (Some file))) \<noteq> None"
    and "isLoading (fst (handleFileUpload (Some v) doc st (Some file))) = False"
    by simp_all
qed

text \<open>
  An instance: after a successful load of a 4 by 4 by 2 volume, an empty TIFF file is
  selected and the engine rejects it with a value that is not an \<open>Error\<close>.
\<close>

theorem upload_failure_forgets_dimensions_witness:
  "file_content \<lparr>file_name = ''empty.tiff'', file_size = 0, file_content = Inr []\<rparr> = Inr [] \<and>
   load_volume_r steady_engine [] = Inl NonError \<and>
   dimensions (initial_state\<lparr>isLoading := False, dimensions := Some [4, 4, 2]\<rparr>) =
     Some [4, 4, 2] \<and>
   dimensions (fst (handleFileUpload (Some steady_engine) small_dom
      (initial_state\<lparr>isLoading := False, dimensions := Some [4, 4, 2]\<rparr>)
      (Some \<lparr>file_name = ''empty.tiff'', file_size = 0, file_content = Inr []\<rparr>))) = None \<and>
   error (fst (handleFileUpload (Some steady_engine) small_dom
      (initial_state\<lparr>isLoading := False, dimensions := Some [4, 4, 2]\<rparr>)
      (Some \<lparr>file_name = ''empty.tiff'', file_size = 0, file_content = Inr []\<rparr>))) \<noteq> None"
proof -
  let ?file = "\<lparr>file_name = ''empty.tiff'', file_size = 0, file_content = Inr []\<rparr>"
  let ?st = "initial_state\<lparr>isLoading := False, dimensions := Some [4, 4, 2]\<rparr>"
  note t = upload_failure_forgets_dimensions [of ?file steady_engine small_dom ?st]
  have "\<exists>bytes. file_content ?file = Inr bytes \<and>
          (case load_volume_r steady_engine bytes of
             Inl t \<Rightarrow> True
           | Inr res \<Rightarrow> res = None \<or> length (the res) \<noteq> 3)"
    by (simp add: steady_engine_def)
  with t obtain thrown where
    "fst (handleFileUpload_try steady_engine small_dom ?st ?file) = Inl thrown"
    by blast
  with t have
    "dimensions (fst (handleFileUpload (Some steady_engine) small_dom ?st (Some ?file))) = None"
    "error (fst (handleFileUpload (Some steady_engine) small_dom ?st (Some ?file))) \<noteq> None"
    by blast+
  then show ?thesis by (simp add: steady_engine_def)
qed

section \<open>Properties of the engine model\<close>

subsection \<open>Decoding and loading\<close>

lemma length_slice: "length (page_slice p) = page_width p * page_height p"
  by (simp add: page_slice_def length_concat comp_def sum_list_triv)

lemma sample_at_unit: "0 \<le> sample_at s x y \<and> sample_at s x y \<le> 1"
proof (cases s)
  case (Gray8 f)
  have "unat (f x y) < 2 ^ 8" using unsigned_less [of "f x y"] by simp
  then have "unat (f x y) \<le> 255" by simp
  then have "real (unat (f x y)) \<le> 255" by (metis of_nat_le_iff of_nat_numeral)
  moreover have "0 \<le> real (unat (f x y))" by (rule of_nat_0_le_iff)
  ultimately show ?thesis using Gray8 by simp
next
  case (Gray16 f)
  have "unat (f x y) < 2 ^ 16" using unsigned_less [of "f x y"] by simp
  then have "unat (f x y) \<le> 65535" by simp
  then have "real (unat (f x y)) \<le> 65535" by (metis of_nat_le_iff of_nat_numeral)
  moreover have "0 \<le> real (unat (f x y))" by (rule of_nat_0_le_iff)
  ultimately show ?thesis using Gray16 by simp
next
  case Other
  then show ?thesis by simp
qed

lemma slice_unit: "list_all (\<lambda>s. 0 \<le> s \<and> s \<le> 1) (page_slice p)"
  by (auto simp: page_slice_def list_all_iff sample_at_unit)

lemma upright_width:
  "page_width (upright p) =
     (if page_orientation p = Some Transpose then page_height p else page_width p)"
  by (simp add: upright_def split: option.split Orientation.split)

lemma upright_height:
  "page_height (upright p) =
     (if page_orientation p = Some Transpose then page_width p else page_height p)"
  by (simp add: upright_def split: option.split Orientation.split)

lemma upright_dims:
  "page_orientation p = page_orientation q \<Longrightarrow> page_width p = page_width q \<Longrightarrow>
   page_height p = page_height q \<Longrightarrow>
   page_width (upright p) = page_width (upright q) \<and>
   page_height (upright p) = page_height (upright q)"
  by (simp add: upright_width upright_height)

lemma length_slices:
  assumes "\<forall>p \<in> set ps. page_width p = w \<and> page_height p = h"
  shows "length (concat (map page_slice ps)) = w * h * length ps"
  using assms
proof (induction ps)
  case Nil
  show ?case by simp
next
  case (Cons q qs)
  from Cons.prems have "\<forall>p \<in> set qs. page_width p = w \<and> page_height p = h" by simp
  then have a: "length (concat (map page_slice qs)) = w * h * length qs" by (rule Cons.IH)
  from Cons.prems have "page_width q = w" "page_height q = h" by simp_all
  then have b: "length (page_slice q) = w * h" by (simp only: length_slice)
  show ?case unfolding list.map concat.simps length_append a b by (simp only: length_Cons mult_Suc_right add.commute)
qed

lemma build_volume_ok:
  assumes "\<forall>p \<in> set rest. page_width p = page_width first \<and> page_height p = page_height first"
  shows "volume_ok (build_volume first rest)"
proof -
  have "length (concat (map page_slice (first # rest))) =
        page_width first * page_height first * length (first # rest)"
    by (rule length_slices) (use assms in auto)
  moreover have "list_all (\<lambda>s. 0 \<le> s \<and> s \<le> 1) (concat (map page_slice (first # rest)))"
    using slice_unit by (auto simp: list_all_iff)
  ultimately show ?thesis by (simp add: volume_ok_def build_volume_def)
qed

lemma decode_Inr:
  assumes "decode parse bytes = Inr v"
  shows "\<exists>first rest. parse bytes = Some (first # rest) \<and>
           v = build_volume (upright first) (map upright rest) \<and>
           (\<forall>p \<in> set rest. page_width p = page_width first \<and> page_height p = page_height first \<and>
               page_orientation p = page_orientation first)"
proof (cases "parse bytes")
  case None
  with assms show ?thesis by (simp add: decode_def)
next
  case (Some pages)
  show ?thesis
  proof (cases pages)
    case Nil
    with Some assms show ?thesis by (simp add: decode_def)
  next
    case (Cons first rest)
    from assms have
      "\<not> list_ex (\<lambda>p. page_width p \<noteq> page_width first \<or>
                           page_height p \<noteq> page_height first) rest"
      "\<not> list_ex (\<lambda>p. page_orientation p \<noteq> page_orientation first) rest"
      "v = build_volume (upright first) (map upright rest)"
      unfolding decode_def Some Cons by (simp_all split: if_splits)
    then show ?thesis unfolding Some Cons by (simp add: list_ex_iff)
  qed
qed

lemma decode_volume_ok:
  assumes "decode parse bytes = Inr v"
  shows "volume_ok v"
proof -
  from decode_Inr [OF assms] obtain first rest where
    v: "v = build_volume (upright first) (map upright rest)"
    and u: "\<forall>p \<in> set rest. page_width p = page_width first \<and> page_height p = page_height first \<and>
               page_orientation p = page_orientation first"
    by blast
  have "\<forall>p \<in> set (map upright rest).
          page_width p = page_width (upright first) \<and> page_height p = page_height (upright first)"
  proof
    fix q
    assume "q \<in> set (map upright rest)"
    then obtain p where p: "p \<in> set rest" and q: "q = upright p" by auto
    from u p have "page_orientation p = page_orientation first"
      "page_width p = page_width first" "page_height p = page_height first" by simp_all
    from upright_dims [OF this] show
      "page_width q = page_width (upright first) \<and> page_height q = page_height (upright first)"
      unfolding q .
  qed
  then show ?thesis unfolding v by (rule build_volume_ok)
qed

text \<open>The voxel at \<open>(x, y, z)\<close> is the normalised sample at \<open>(x, y)\<close> of page \<open>z\<close>.\<close>

lemma concat_nth_uniform:
  assumes "\<forall>xs \<in> set xss. length xs = n" "i < length xss" "j < n"
  shows "concat xss ! (i * n + j) = xss ! i ! j"
  using assms
proof (induction xss arbitrary: i)
  case Nil
  then show ?case by simp
next
  case (Cons xs xss)
  from Cons.prems have len: "length xs = n" by simp
  show ?case
  proof (cases i)
    case 0
    with Cons.prems len show ?thesis by (simp add: nth_append)
  next
    case (Suc k)
    with Cons.prems have "concat xss ! (k * n + j) = xss ! k ! j"
      by (intro Cons.IH) simp_all
    moreover have "Suc k * n + j - n = k * n + j" by simp
    moreover have "\<not> Suc k * n + j < n" by simp
    ultimately show ?thesis using Suc len by (simp only: concat.simps nth_append nth_Cons_Suc if_False)
  qed
qed

lemma page_slice_nth:
  assumes "x < page_width p" "y < page_height p"
  shows "page_slice p ! (y * page_width p + x) = sample_at (page_samples p) x y"
proof -
  let ?rows = "map (\<lambda>y. map (\<lambda>x. sample_at (page_samples p) x y) [0..<page_width p])
                 [0..<page_height p]"
  have "concat ?rows ! (y * page_width p + x) = ?rows ! y ! x"
    by (rule concat_nth_uniform) (use assms in auto)
  also have "\<dots> = sample_at (page_samples p) x y" using assms by simp
  finally show ?thesis by (simp add: page_slice_def)
qed

lemma voxel_build_volume:
  assumes u: "\<forall>p \<in> set rest. page_width p = page_width first \<and> page_height p = page_height first"
    and x: "x < page_width first" and y: "y < page_height first" and z: "z < Suc (length rest)"
  shows "voxel (build_volume first rest) x y z = sample_at (page_samples ((first # rest) ! z)) x y"
proof -
  let ?w = "page_width first" and ?h = "page_height first"
  let ?p = "(first # rest) ! z"
  have pz: "?p \<in> set (first # rest)" using z by (intro nth_mem) simp
  with u have dims: "page_width ?p = ?w" "page_height ?p = ?h" by auto
  have "y * ?w + x < ?w * ?h"
  proof -
    have "y * ?w + x < Suc y * ?w" using x by simp
    also have "\<dots> \<le> ?h * ?w" using y by (intro mult_le_mono1) simp
    finally show ?thesis by (simp add: mult.commute)
  qed
  moreover have "\<forall>xs \<in> set (map page_slice (first # rest)). length xs = ?w * ?h"
    using u by (auto simp: length_slice)
  moreover have "z < length (map page_slice (first # rest))" using z by simp
  ultimately have "concat (map page_slice (first # rest)) ! (z * (?w * ?h) + (y * ?w + x)) =
      map page_slice (first # rest) ! z ! (y * ?w + x)"
    by (intro concat_nth_uniform)
  also have "\<dots> = page_slice ?p ! (y * page_width ?p + x)"
    using z dims by (simp only: nth_map length_Cons)
  also have "\<dots> = sample_at (page_samples ?p) x y"
    using x y dims by (intro page_slice_nth) simp_all
  finally show ?thesis by (simp add: voxel_def build_volume_def add.assoc)
qed

lemma decode_voxel:
  assumes d: "decode parse bytes = Inr vol" and p: "parse bytes = Some pages"
    and x: "x < vol_width vol" and y: "y < vol_height vol" and z: "z < vol_depth vol"
  shows "vol_depth vol = length pages \<and>
         voxel vol x y z = sample_at (page_samples (upright (pages ! z))) x y"
proof -
  from decode_Inr [OF d] p obtain first rest where
    pages: "pages = first # rest"
    and v: "vol = build_volume (upright first) (map upright rest)"
    and u: "\<forall>q \<in> set rest. page_width q = page_width first \<and> page_height q = page_height first \<and>
               page_orientation q = page_orientation first"
    by auto
  have dims: "\<forall>q \<in> set (map upright rest).
          page_width q = page_width (upright first) \<and> page_height q = page_height (upright first)"
  proof
    fix q
    assume "q \<in> set (map upright rest)"
    then obtain r where r: "r \<in> set rest" and q: "q = upright r" by auto
    from u r have "page_orientation r = page_orientation first"
      "page_width r = page_width first" "page_height r = page_height first" by simp_all
    from upright_dims [OF this] show
      "page_width q = page_width (upright first) \<and> page_height q = page_height (upright first)"
      unfolding q .
  qed
  from x y z have x': "x < page_width (upright first)" and y': "y < page_height (upright first)"
    and z': "z < Suc (length (map upright rest))"
    by (simp_all add: v build_volume_def)
  have "(upright first # map upright rest) ! z = upright (pages ! z)"
    using z' by (cases z) (simp_all add: pages)
  with voxel_build_volume [OF dims x' y' z'] show ?thesis
    by (simp add: v pages build_volume_def)
qed

lemma load_volume_failed:
  "fst (load_volume S bytes en) = Inl err \<Longrightarrow> snd (load_volume S bytes en) = en"
  by (simp add: load_volume_def split: sum.splits)

lemma load_volume_done:
  "decode (container_parser S) bytes = Inr v \<Longrightarrow>
   load_volume S bytes en = (Inr [vol_width v, vol_height v, vol_depth v], en\<lparr>volume := Some v\<rparr>)"
  by (simp add: load_volume_def)

lemma decode_demo:
  "decode demo_parser [1] =
     Inr (build_volume
       \<lparr>page_width = 4, page_height = 4, page_orientation = None,
        page_samples = Gray8 (\<lambda>x y. 0)\<rparr>
       [\<lparr>page_width = 4, page_height = 4, page_orientation = None,
         page_samples = Gray8 (\<lambda>x y. 255)\<rparr>])"
  by (simp add: decode_def demo_parser_def upright_def)

text \<open>
  Claim C4. Whenever decoding succeeds, \<open>load_volume\<close> returns exactly the three
  numbers width, height, depth of the volume it installs, and that volume is fully
  populated: its buffer has width times height times depth intensities in the unit
  interval, the depth is the page count, and each voxel is the normalised sample of its
  page. On the host side, a resolved result that is null or whose length is not 3 makes
  the upload fail with "Invalid volume dimensions received" and no dimensions shown.
\<close>

theorem load_returns_dimension_triple:
  "(decode (container_parser S) bytes = Inr vol \<longrightarrow>
      fst (load_volume S bytes en) = Inr [vol_width vol, vol_height vol, vol_depth vol] \<and>
      length [vol_width vol, vol_height vol, vol_depth vol] = 3 \<and>
      snd (load_volume S bytes en) = en\<lparr>volume := Some vol\<rparr> \<and>
      volume_ok vol \<and>
      (\<forall>pages x y z. container_parser S bytes = Some pages \<and> x < vol_width vol \<and>
          y < vol_height vol \<and> z < vol_depth vol \<longrightarrow>
          vol_depth vol = length pages \<and>
          voxel vol x y z = sample_at (page_samples (upright (pages ! z))) x y)) \<and>
   ((endsWith (toLowerCase (file_name file)) ''.tif'' \<or>
     endsWith (toLowerCase (file_name file)) ''.tiff'') \<and>
    file_size file \<le> MAX_FILE_SIZE \<and>
    file_content file = Inr bytes \<and>
    load_volume_r v bytes = Inr res \<and>
    (res = None \<or> length (the res) \<noteq> 3) \<longrightarrow>
      error (fst (handleFileUpload (Some v) doc st (Some file))) =
        Some ''Invalid volume dimensions received'' \<and>
      dimensions (fst (handleFileUpload (Some v) doc st (Some file))) = None)"
proof (intro conjI impI allI)
  assume d: "decode (container_parser S) bytes = Inr vol"
  from load_volume_done [OF d, of en]
  show "fst (load_volume S bytes en) = Inr [vol_width vol, vol_height vol, vol_depth vol]"
    and "snd (load_volume S bytes en) = en\<lparr>volume := Some vol\<rparr>"
    by simp_all
  show "length [vol_width vol, vol_height vol, vol_depth vol] = 3" by simp
  from d show "volume_ok vol" by (rule decode_volume_ok)
  fix pages x y z
  assume "container_parser S bytes = Some pages \<and> x < vol_width vol \<and>
          y < vol_height vol \<and> z < vol_depth vol"
  then have "vol_depth vol = length pages \<and>
          voxel vol x y z = sample_at (page_samples (upright (pages ! z))) x y"
    by (intro decode_voxel [OF d]) simp_all
  then show "vol_depth vol = length pages"
    and "voxel vol x y z = sample_at (page_samples (upright (pages ! z))) x y"
    by simp_all
next
  assume a: "(endsWith (toLowerCase (file_name file)) ''.tif'' \<or>
     endsWith (toLowerCase (file_name file)) ''.tiff'') \<and>
    file_size file \<le> MAX_FILE_SIZE \<and>
    file_content file = Inr bytes \<and>
    load_volume_r v bytes = Inr res \<and>
    (res = None \<or> length (the res) \<noteq> 3)"
  then have a1: "endsWith (toLowerCase (file_name file)) ''.tif'' \<or>
      endsWith (toLowerCase (file_name file)) ''.tiff''"
    and a2: "file_size file \<le> MAX_FILE_SIZE"
    and a3: "file_content file = Inr bytes"
    and a4: "load_volume_r v bytes = Inr res"
    and a5: "res = None \<or> length (the res) \<noteq> 3"
    by simp_all
  have "\<exists>effs. handleFileUpload_try v doc st file =
          (Inl (Error ''Invalid volume dimensions received''),
           st\<lparr>isLoading := True, error := None, dimensions := None\<rparr>, doc, effs)"
    by (rule try_malformed [OF a1 a2 a3 a4 a5])
  then obtain effs where t: "handleFileUpload_try v doc st file =
          (Inl (Error ''Invalid volume dimensions received''),
           st\<lparr>isLoading := True, error := None, dimensions := None\<rparr>, doc, effs)" ..
  show "error (fst (handleFileUpload (Some v) doc st (Some file))) =
        Some ''Invalid volume dimensions received''"
    and "dimensions (fst (handleFileUpload (Some v) doc st (Some file))) = None"
    unfolding upload_failed [OF t] by (simp_all add: message_of_def)
qed

text \<open>
  An instance: the two-page 4 by 4 input loads as (4, 4, 2); an engine that answers
  with two numbers only makes the upload fail.
\<close>

theorem load_returns_dimension_triple_witness:
  "fst (load_volume demo_settings [1] demo_engine) = Inr [4, 4, 2] \<and>
   error (fst (handleFileUpload
      (Some (steady_engine\<lparr>load_volume_r := (\<lambda>bytes. Inr (Some [4, 4]))\<rparr>)) small_dom initial_state
      (Some \<lparr>file_name = ''stack.tif'', file_size = 1, file_content = Inr [1]\<rparr>))) =
     Some ''Invalid volume dimensions received''"
proof -
  let ?vol = "build_volume
       \<lparr>page_width = 4, page_height = 4, page_orientation = None,
        page_samples = Gray8 (\<lambda>x y. 0)\<rparr>
       [\<lparr>page_width = 4, page_height = 4, page_orientation = None,
         page_samples = Gray8 (\<lambda>x y. 255)\<rparr>]"
  let ?file = "\<lparr>file_name = ''stack.tif'', file_size = 1, file_content = Inr [1]\<rparr>"
  let ?v = "steady_engine\<lparr>load_volume_r := (\<lambda>bytes. Inr (Some [4, 4]))\<rparr>"
  note t = load_returns_dimension_triple [of demo_settings "[1]" ?vol demo_engine ?file ?v
      "Some [4, 4]" small_dom initial_state]
  have d: "decode (container_parser demo_settings) [1] = Inr ?vol"
    by (simp add: demo_settings_def decode_demo)
  have h: "(endsWith (toLowerCase (file_name ?file)) ''.tif'' \<or>
     endsWith (toLowerCase (file_name ?file)) ''.tiff'') \<and>
    file_size ?file \<le> MAX_FILE_SIZE \<and>
    file_content ?file = Inr [1] \<and>
    load_volume_r ?v [1] = Inr (Some [4, 4]) \<and>
    (Some [4, 4 :: real] = None \<or> length (the (Some [4, 4 :: real])) \<noteq> 3)"
    by (simp add: toLowerCase_def lower_char_def endsWith_def MAX_FILE_SIZE_def)
  from t d h show ?thesis by (simp add: build_volume_def)
qed

text \<open>
  Claim C6. A load whose decoding fails, with whichever of the four error kinds,
  returns that error and leaves the whole engine state, the previously loaded volume
  included, as it was. After any load the volume store holds either what it held before
  or the complete, valid volume the decoder produced: no partial volume is installed.
\<close>

theorem failed_load_keeps_volume:
  "(fst (load_volume S bytes en) = Inl err \<longrightarrow>
      decode (container_parser S) bytes = Inl err \<and> snd (load_volume S bytes en) = en) \<and>
   (volume (snd (load_volume S bytes en)) = volume en \<or>
    (\<exists>v. decode (container_parser S) bytes = Inr v \<and>
         volume (snd (load_volume S bytes en)) = Some v \<and> volume_ok v))"
proof (cases "decode (container_parser S) bytes")
  case (Inl e)
  then show ?thesis by (simp add: load_volume_def)
next
  case (Inr v)
  from decode_volume_ok [OF Inr] load_volume_done [OF Inr, of en] Inr show ?thesis by simp
qed

text \<open>
  An instance: after the two-page volume is loaded, a 3-channel input is rejected with
  \<open>UnsupportedFormat\<close> and the engine state is unchanged.
\<close>

theorem failed_load_keeps_volume_witness:
  "volume (snd (load_volume demo_settings [1] demo_engine)) \<noteq> None \<and>
   fst (load_volume demo_settings [3] (snd (load_volume demo_settings [1] demo_engine))) =
     Inl UnsupportedFormat \<and>
   snd (load_volume demo_settings [3] (snd (load_volume demo_settings [1] demo_engine))) =
     snd (load_volume demo_settings [1] demo_engine)"
proof -
  have f: "fst (load_volume demo_settings [3] (snd (load_volume demo_settings [1] demo_engine))) =
     Inl UnsupportedFormat"
    by (simp add: load_volume_def decode_def demo_settings_def demo_parser_def)
  have "volume (snd (load_volume demo_settings [1] demo_engine)) \<noteq> None"
    by (simp add: load_volume_def demo_settings_def decode_demo)
  with f failed_load_keeps_volume [of demo_settings "[3]"
      "snd (load_volume demo_settings [1] demo_engine)" UnsupportedFormat]
  show ?thesis by simp
qed

subsection \<open>Rendering after a resize\<close>

lemma write_pixel_length: "length (write_pixel buf i p) = length buf"
  by (simp add: write_pixel_def split: prod.splits)

lemma write_pixel_same:
  "4 * i + 3 < length buf \<Longrightarrow> c < 4 \<Longrightarrow> write_pixel buf i p ! (4 * i + c) = channel c p"
  by (cases p) (auto simp: write_pixel_def nth_list_update)

lemma write_pixel_other:
  "j \<noteq> i \<Longrightarrow> c < 4 \<Longrightarrow> write_pixel buf i p ! (4 * j + c) = buf ! (4 * j + c)"
  by (cases p) (auto simp: write_pixel_def nth_list_update)

lemma fold_write_length:
  "length (fold (\<lambda>i b. write_pixel b i (g i)) [0..<n] buf) = length buf"
  by (induction n) (simp_all add: write_pixel_length)

lemma fold_write_nth:
  "4 * n \<le> length buf \<Longrightarrow> i < n \<Longrightarrow> c < 4 \<Longrightarrow>
   fold (\<lambda>i b. write_pixel b i (g i)) [0..<n] buf ! (4 * i + c) = channel c (g i)"
proof (induction n)
  case 0
  then show ?case by simp
next
  case (Suc n)
  show ?case
  proof (cases "i = n")
    case True
    have "4 * n + 3 < length (fold (\<lambda>i b. write_pixel b i (g i)) [0..<n] buf)"
      using Suc.prems(1) by (simp add: fold_write_length)
    then show ?thesis using True Suc.prems(3) by (simp add: write_pixel_same)
  next
    case False
    with Suc.prems have "i < n" "4 * n \<le> length buf" by simp_all
    with Suc.IH Suc.prems(3) False show ?thesis by (simp add: write_pixel_other)
  qed
qed

lemma paint_length: "length (paint colour w h buf) = length buf"
  by (simp add: paint_def fold_write_length)

lemma paint_nth:
  assumes "length buf = 4 * w * h" "x < w" "y < h" "c < 4"
  shows "paint colour w h buf ! (4 * (y * w + x) + c) = channel c (colour x y)"
proof -
  have "y * w + x < w * h"
  proof -
    have "y * w + x < y * w + w" using assms(2) by simp
    also have "\<dots> = (Suc y) * w" by simp
    also have "\<dots> \<le> h * w" using assms(3) by (intro mult_le_mono1) simp
    finally show ?thesis by (simp add: mult.commute)
  qed
  moreover have "4 * (w * h) \<le> length buf" using assms(1) by simp
  ultimately have "paint colour w h buf ! (4 * (y * w + x) + c) =
      channel c (colour ((y * w + x) mod w) ((y * w + x) div w))"
    using fold_write_nth [of "w * h" buf "y * w + x" c "\<lambda>i. colour (i mod w) (i div w)"] assms(4)
    by (simp add: paint_def)
  then show ?thesis using assms(2) by simp
qed

lemma step_viewport:
  "\<not> is_resize op \<Longrightarrow>
   viewport_width (camera (step S op en)) = viewport_width (camera en) \<and>
   viewport_height (camera (step S op en)) = viewport_height (camera en) \<and>
   length (frame_buffer (step S op en)) = length (frame_buffer en)"
  by (cases op)
     (simp_all add: load_volume_def render_def orbit_def zoom_def pan_def
        cam_orbit_def cam_zoom_def cam_pan_def paint_length Let_def split: sum.split)

lemma run_viewport:
  "\<not> list_ex is_resize ops \<Longrightarrow>
   viewport_width (camera (run S ops en)) = viewport_width (camera en) \<and>
   viewport_height (camera (run S ops en)) = viewport_height (camera en) \<and>
   length (frame_buffer (run S ops en)) = length (frame_buffer en)"
  unfolding run_def
  by (induction ops arbitrary: en) (simp_all add: step_viewport)

lemma resize_fits:
  "viewport_width (camera (resize w h en)) = w \<and>
   viewport_height (camera (resize w h en)) = h \<and>
   length (frame_buffer (resize w h en)) = 4 * w * h"
  by (simp add: resize_def cam_resize_def)

text \<open>
  Claim C2. After \<open>resize w h\<close>, from whatever state and viewport size, and after any
  further operations other than another resize, \<open>render\<close> returns a buffer of exactly
  \<open>4 * w * h\<close> bytes, laid out row by row from the top-left pixel, four bytes R, G, B,
  A per pixel: byte \<open>4 * (y * w + x) + c\<close> is channel \<open>c\<close> of the pixel in column \<open>x\<close>
  of row \<open>y\<close>.
\<close>

theorem resize_then_render_size:
  assumes "\<not> list_ex is_resize ops"
  shows "length (fst (render S (run S ops (resize w h en)))) = 4 * w * h \<and>
         (\<forall>x<w. \<forall>y<h. \<forall>c<4.
            fst (render S (run S ops (resize w h en))) ! (4 * (y * w + x) + c) =
              channel c (pixel S (run S ops (resize w h en)) x y))"
proof -
  let ?en = "run S ops (resize w h en)"
  from run_viewport [OF assms, of S "resize w h en"] resize_fits [of w h en]
  have vw: "viewport_width (camera ?en) = w" and vh: "viewport_height (camera ?en) = h"
    and len: "length (frame_buffer ?en) = 4 * w * h"
    by simp_all
  have r: "fst (render S ?en) = paint (pixel S ?en) w h (frame_buffer ?en)"
    by (simp add: render_def Let_def vw vh)
  show ?thesis
    unfolding r
  proof (intro conjI allI impI)
    show "length (paint (pixel S ?en) w h (frame_buffer ?en)) = 4 * w * h"
      by (simp add: paint_length len)
  next
    fix x y c :: nat
    assume "x < w" "y < h" "c < 4"
    then show "paint (pixel S ?en) w h (frame_buffer ?en) ! (4 * (y * w + x) + c) =
               channel c (pixel S ?en x y)"
      by (rule paint_nth [OF len])
  qed
qed

text \<open>An instance: an 800 by 600 viewport resized to 3 by 2.\<close>

theorem resize_then_render_size_witness:
  "\<not> list_ex is_resize [Zoom (1 / 10), Render] \<and>
   length (fst (render demo_settings
     (run demo_settings [Zoom (1 / 10), Render] (resize 3 2 demo_engine)))) = 24 \<and>
   fst (render demo_settings
     (run demo_settings [Zoom (1 / 10), Render] (resize 3 2 demo_engine))) ! (4 * (1 * 3 + 2) + 3) =
     channel 3 (pixel demo_settings
       (run demo_settings [Zoom (1 / 10), Render] (resize 3 2 demo_engine)) 2 1)"
proof -
  have a: "\<not> list_ex is_resize [Zoom (1 / 10), Render]" by simp
  note t = resize_then_render_size [OF a, of demo_settings 3 2 demo_engine]
  from t have "length (fst (render demo_settings
     (run demo_settings [Zoom (1 / 10), Render] (resize 3 2 demo_engine)))) = 24"
    by simp
  moreover from t [THEN conjunct2, rule_format, of 2 1 3]
  have "fst (render demo_settings
     (run demo_settings [Zoom (1 / 10), Render] (resize 3 2 demo_engine))) ! (4 * (1 * 3 + 2) + 3) =
     channel 3 (pixel demo_settings
       (run demo_settings [Zoom (1 / 10), Render] (resize 3 2 demo_engine)) 2 1)"
    by simp
  ultimately show ?thesis using a by blast
qed

subsection \<open>The camera distance\<close>

lemma clamp_lower: "lo \<le> clamp lo hi x"
  by (simp add: clamp_def)

lemma step_distance:
  "min_distance S \<le> distance (camera en) \<Longrightarrow> min_distance S \<le> distance (camera (step S op en))"
  by (cases op)
     (simp_all add: load_volume_def render_def orbit_def zoom_def pan_def resize_def
        cam_orbit_def cam_zoom_def cam_pan_def cam_resize_def clamp_lower Let_def
        split: sum.split)

lemma run_distance:
  "min_distance S \<le> distance (camera en) \<Longrightarrow> min_distance S \<le> distance (camera (run S ops en))"
  unfolding run_def
  by (induction ops arbitrary: en) (simp_all add: step_distance)

text \<open>
  Claim C7. With a positive minimum distance, a camera whose distance is at least that
  minimum keeps it so under every sequence of facade operations (orbit, zoom, pan and
  resize among them), with either zoom formula: the distance stays at or above the
  positive minimum, hence strictly above zero and above every smaller positive
  epsilon. In particular \<open>zoom (-1)\<close> applied \<open>n\<close> times leaves it positive.
\<close>

theorem distance_stays_positive:
  assumes "0 < min_distance S" and "min_distance S \<le> distance (camera en)"
  shows "min_distance S \<le> distance (camera (run S ops en)) \<and>
         0 < distance (camera (run S ops en)) \<and>
         (\<exists>eps. 0 < eps \<and> (\<forall>ops'. eps < distance (camera (run S ops' en)))) \<and>
         0 < distance (camera (run S (replicate n (Zoom (- 1))) en))"
proof -
  have a: "min_distance S \<le> distance (camera (run S ops' en))" for ops'
    using assms(2) by (rule run_distance)
  have "0 < min_distance S / 2 \<and>
        (\<forall>ops'. min_distance S / 2 < distance (camera (run S ops' en)))"
  proof (intro conjI allI)
    show "0 < min_distance S / 2" using assms(1) by simp
  next
    fix ops'
    have "min_distance S / 2 < min_distance S" using assms(1) by simp
    also have "\<dots> \<le> distance (camera (run S ops' en))" by (rule a)
    finally show "min_distance S / 2 < distance (camera (run S ops' en))" .
  qed
  then have "\<exists>eps. 0 < eps \<and> (\<forall>ops'. eps < distance (camera (run S ops' en)))" ..
  moreover have "0 < distance (camera (run S ops en))"
    and "0 < distance (camera (run S (replicate n (Zoom (- 1))) en))"
    using a [of ops] a [of "replicate n (Zoom (- 1))"] assms(1) by simp_all
  ultimately show ?thesis using a [of ops] by simp
qed

text \<open>
  An instance: from distance 5 with minimum 0.1, two maximal zoom-ins around an orbit,
  a pan and a resize end at distance 0.1.
\<close>

theorem distance_stays_positive_witness:
  "0 < min_distance demo_settings \<and>
   min_distance demo_settings \<le> distance (camera demo_engine) \<and>
   distance (camera (run demo_settings [Zoom (- 1), Orbit 1 1, Pan 2 3, Resize 4 4, Zoom (- 1)]
                       demo_engine)) = 1 / 10 \<and>
   0 < distance (camera (run demo_settings (replicate 3 (Zoom (- 1))) demo_engine))"
proof -
  have a: "0 < min_distance demo_settings"
    and b: "min_distance demo_settings \<le> distance (camera demo_engine)"
    by (simp_all add: demo_settings_def demo_engine_def)
  have "distance (camera (run demo_settings
          [Zoom (- 1), Orbit 1 1, Pan 2 3, Resize 4 4, Zoom (- 1)] demo_engine)) = 1 / 10"
    by (simp add: run_def zoom_def orbit_def pan_def resize_def cam_zoom_def cam_orbit_def
        cam_pan_def cam_resize_def clamp_def demo_settings_def demo_engine_def)
  with a b distance_stays_positive [OF a b, of "[]" 3] show ?thesis by simp
qed

end
